theory Spec2Isabelle
  imports Main "HOL-Library.AList"
begin

section \<open>Text: the string operations the source uses\<close>

text \<open>
  A JavaScript string is modelled as a \<^typ>\<open>string\<close>: a list of characters, each a code
  unit below 256. Of the characters JavaScript counts as white space (for \<open>trim()\<close> and
  for the class of white space in a regular expression) the ones in that range are tab, line feed, vertical
  tab, form feed, carriage return, space and no-break space.
\<close>

definition isSpace :: "char \<Rightarrow> bool" where
  "isSpace c = (c \<in> set [CHR 0x09, CHR 0x0A, CHR 0x0B, CHR 0x0C, CHR 0x0D, CHR 0x20, CHR 0xA0])"

text \<open>\<open>s.trim()\<close>: white space removed at both ends.\<close>

definition trim :: "string \<Rightarrow> string" where
  "trim s = rev (dropWhile isSpace (rev (dropWhile isSpace s)))"

text \<open>\<open>t.startsWith(p)\<close> and \<open>t.includes(p)\<close> (the name \<open>includes\<close> is reserved).\<close>

fun startsWith :: "string \<Rightarrow> string \<Rightarrow> bool" where
  "startsWith t [] = True"
| "startsWith [] (p # ps) = False"
| "startsWith (c # cs) (p # ps) = (c = p \<and> startsWith cs ps)"

fun str_includes :: "string \<Rightarrow> string \<Rightarrow> bool" where
  "str_includes [] p = (p = [])"
| "str_includes (c # cs) p = (startsWith (c # cs) p \<or> str_includes cs p)"

text \<open>
  \<open>`${n}`\<close> for a non-negative integer \<open>n\<close>: its decimal digits, most significant
  first, no leading zero.
\<close>

definition digit_char :: "nat \<Rightarrow> char" where
  "digit_char d = ''0123456789'' ! d"

fun show_nat :: "nat \<Rightarrow> string" where
  "show_nat n = (if n < 10 then [digit_char n] else show_nat (n div 10) @ [digit_char (n mod 10)])"

declare show_nat.simps [simp del]

text \<open>\<open>`${i}`\<close> for an integer: a minus sign before the digits of a negative one.\<close>

definition show_int :: "int \<Rightarrow> string" where
  "show_int i = (if i < 0 then CHR ''-'' # show_nat (nat (- i)) else show_nat (nat i))"

section \<open>The data model (session-manager.ts)\<close>

text \<open>
  Objects that the code shares and mutates live in a store and are named by a reference:
  a \<open>PSSessionInfo\<close>, its \<open>options\<close> object, its two \<open>Date\<close> objects, and the
  session records of the registry. An object that was just built and is held by nobody
  else (a spread copy such as \<open>{ ...session.info }\<close>, a result) is written as its value.
  The field \<open>id\<close> is called \<open>sid\<close> here.
\<close>

type_synonym ref = nat

datatype session_state = Connected | Disconnected | Connecting | Failed

datatype authentication = Default | Kerberos | Certificate | Basic | Negotiate

record PSSessionOptions =
  opt_computerName :: "string option"
  opt_credential :: "string option"
  opt_authentication :: "authentication option"
  opt_port :: "int option"
  opt_useSSL :: "bool option"
  opt_timeout :: "int option"

record PSSessionInfo =
  name :: string
  sid :: string
  state :: session_state
  computerName :: string
  runspaceId :: "string option"
  configurationName :: "string option"
  createdAt :: ref
  lastUsed :: ref
  isLocal :: bool
  options :: "ref option"

record SessionResult =
  res_stdout :: string
  res_stderr :: string
  res_success :: bool
  res_sessionInfo :: PSSessionInfo

text \<open>A JavaScript \<open>Error\<close> with its message.\<close>

datatype error = Error string

section \<open>The stream framer of a local session (session-manager.ts, executeInLocalSession)\<close>

text \<open>
  The markers of the execution with correlation id \<open>cmdId\<close>:
  \<open>`---START-${cmdId}---`\<close> and \<open>`---END-${cmdId}---`\<close>, and the two end sentinels
  \<open>`${endMarker}:SUCCESS`\<close> and \<open>`${endMarker}:ERROR`\<close>.
\<close>

definition startMarker :: "nat \<Rightarrow> string" where
  "startMarker cmdId = ''---START-'' @ show_nat cmdId @ ''---''"

definition endMarker :: "nat \<Rightarrow> string" where
  "endMarker cmdId = ''---END-'' @ show_nat cmdId @ ''---''"

definition endSuccess :: "nat \<Rightarrow> string" where
  "endSuccess cmdId = endMarker cmdId @ '':SUCCESS''"

definition endError :: "nat \<Rightarrow> string" where
  "endError cmdId = endMarker cmdId @ '':ERROR''"

text \<open>
  The global replacement of the regular expression made of the start marker and a
  run of white space by the empty string, applied to \<open>stdout\<close>: every occurrence of the
  marker \<open>m\<close>, found from left to right, is removed with the white space that follows it.
  The marker holds no character that is special in a regular expression, and it is never
  empty; for an empty \<open>m\<close> the function returns the text as it is.
\<close>

function removeMarker :: "string \<Rightarrow> string \<Rightarrow> string" where
  "removeMarker m [] = []"
| "removeMarker m (c # cs) =
     (if m \<noteq> [] \<and> startsWith (c # cs) m
      then removeMarker m (dropWhile isSpace (drop (length m) (c # cs)))
      else c # removeMarker m cs)"
  by pat_completeness auto
termination
proof (relation "measure (\<lambda>(m, t). length t)")
  show "wf (measure (\<lambda>(m, t). length t))" by simp
next
  fix m :: string and c :: char and cs :: string
  assume "m \<noteq> [] \<and> startsWith (c # cs) m"
  then have "0 < length m" by simp
  then have "length (drop (length m) (c # cs)) < length (c # cs)" by simp
  moreover have "length (dropWhile isSpace (drop (length m) (c # cs)))
      \<le> length (drop (length m) (c # cs))"
    by (rule length_dropWhile_le)
  ultimately show "((m, dropWhile isSpace (drop (length m) (c # cs))), (m, c # cs))
      \<in> measure (\<lambda>(m, t). length t)"
    by simp
next
  fix m :: string and c :: char and cs :: string
  show "((m, cs), (m, c # cs)) \<in> measure (\<lambda>(m, t). length t)" by simp
qed

text \<open>
  The variables that the closures of one \<open>executeInLocalSession\<close> call share:
  \<open>stdout\<close>, \<open>stderr\<close>, \<open>capturing\<close>, \<open>completed\<close>, the timer (\<open>timeoutId\<close>, true
  while it is armed), whether \<open>dataHandler\<close> and \<open>errorHandler\<close> are attached to the
  subprocess's streams (\<open>listening\<close>), and the promise (\<open>outcome\<close>, \<open>None\<close> while
  it is pending, \<open>Inl\<close> a rejection, \<open>Inr\<close> a resolution).
\<close>

record exec_state =
  cmdId :: nat
  timeout_ms :: int
  stdout :: string
  stderr :: string
  capturing :: bool
  completed :: bool
  timeoutId :: bool
  listening :: bool
  outcome :: "(error + SessionResult) option"

text \<open>A promise settles once: \<open>resolve\<close> and \<open>reject\<close> on a settled promise do nothing.\<close>

definition resolve :: "SessionResult \<Rightarrow> exec_state \<Rightarrow> exec_state" where
  "resolve r e = (if outcome e = None then e\<lparr>outcome := Some (Inr r)\<rparr> else e)"

definition reject :: "error \<Rightarrow> exec_state \<Rightarrow> exec_state" where
  "reject err e = (if outcome e = None then e\<lparr>outcome := Some (Inl err)\<rparr> else e)"

text \<open>\<open>cleanup\<close>: the timer is cleared and both handlers are taken off the streams.\<close>

definition cleanup :: "exec_state \<Rightarrow> exec_state" where
  "cleanup e = e\<lparr>timeoutId := False, listening := False\<rparr>"

text \<open>
  \<open>dataHandler\<close>, for one chunk \<open>text\<close> of the subprocess's standard output. \<open>sinfo\<close> is
  what \<open>{ ...session.info }\<close> reads when the handler runs.
\<close>

definition finalize :: "PSSessionInfo \<Rightarrow> bool \<Rightarrow> exec_state \<Rightarrow> exec_state" where
  "finalize sinfo ok e =
     (let e1 = e\<lparr>completed := True\<rparr>;
          cleanOutput = trim (removeMarker (startMarker (cmdId e1)) (stdout e1));
          e2 = cleanup e1
      in resolve \<lparr>res_stdout = cleanOutput, res_stderr = trim (stderr e2),
                    res_success = ok, res_sessionInfo = sinfo\<rparr> e2)"

definition dataHandler :: "PSSessionInfo \<Rightarrow> exec_state \<Rightarrow> string \<Rightarrow> exec_state" where
  "dataHandler sinfo e text =
     (if str_includes text (startMarker (cmdId e))
      then e\<lparr>capturing := True, stdout := [], stderr := []\<rparr>
      else if capturing e
      then (if str_includes text (endSuccess (cmdId e)) then finalize sinfo True e
            else if str_includes text (endError (cmdId e)) then finalize sinfo False e
            else e\<lparr>stdout := stdout e @ text\<rparr>)
      else e)"

definition errorHandler :: "exec_state \<Rightarrow> string \<Rightarrow> exec_state" where
  "errorHandler e text = (if capturing e then e\<lparr>stderr := stderr e @ text\<rparr> else e)"

text \<open>
  The callback of \<open>setTimeout\<close>: it rejects with
  \<open>`Command timed out after ${timeout}ms`\<close> unless the execution has completed.
\<close>

definition timeoutMessage :: "int \<Rightarrow> string" where
  "timeoutMessage t = ''Command timed out after '' @ show_int t @ ''ms''"

definition onTimeout :: "exec_state \<Rightarrow> exec_state" where
  "onTimeout e =
     (if \<not> completed e
      then reject (Error (timeoutMessage (timeout_ms e))) (cleanup (e\<lparr>completed := True\<rparr>))
      else e)"

text \<open>
  What the execution sees of the world: a chunk on the subprocess's standard output, a
  chunk on its standard error, the timer firing. A handler runs only while it is
  attached, the timer's callback only while the timer is armed.
\<close>

datatype exec_event = StdoutData string | StderrData string | TimerFired

fun exec_step :: "PSSessionInfo \<Rightarrow> exec_state \<Rightarrow> exec_event \<Rightarrow> exec_state" where
  "exec_step sinfo e (StdoutData text) = (if listening e then dataHandler sinfo e text else e)"
| "exec_step sinfo e (StderrData text) = (if listening e then errorHandler e text else e)"
| "exec_step sinfo e TimerFired = (if timeoutId e then onTimeout (e\<lparr>timeoutId := False\<rparr>) else e)"

definition exec_run :: "PSSessionInfo \<Rightarrow> exec_state \<Rightarrow> exec_event list \<Rightarrow> exec_state" where
  "exec_run sinfo e evs = foldl (exec_step sinfo) e evs"

text \<open>
  The state in which \<open>executeInLocalSession\<close> leaves its closures once the handlers are
  attached, the timer is set and the wrapped command is written.
\<close>

definition exec_init :: "nat \<Rightarrow> int \<Rightarrow> exec_state" where
  "exec_init n t = \<lparr>cmdId = n, timeout_ms = t, stdout = [], stderr = [], capturing = False,
     completed = False, timeoutId = True, listening = True, outcome = None\<rparr>"

text \<open>
  The three sentinels of an execution, and the texts in which none of the sentinels of
  execution \<open>n\<close> occurs.
\<close>

datatype sentinel_kind = Start | EndSuccess | EndError

fun sentinel :: "sentinel_kind \<Rightarrow> nat \<Rightarrow> string" where
  "sentinel Start m = startMarker m"
| "sentinel EndSuccess m = endSuccess m"
| "sentinel EndError m = endError m"

definition no_marker :: "nat \<Rightarrow> string \<Rightarrow> bool" where
  "no_marker n t = (\<not> str_includes t (startMarker n) \<and> \<not> str_includes t (endSuccess n)
     \<and> \<not> str_includes t (endError n))"

text \<open>
  A chunk that holds a sentinel of another execution \<open>m\<close> between two texts without a
  hyphen: \<open>a @ sentinel k m @ b\<close>.
\<close>

type_synonym foreign_chunk = "string \<times> sentinel_kind \<times> nat \<times> string"

fun chunk_text :: "foreign_chunk \<Rightarrow> string" where
  "chunk_text (a, k, m, b) = a @ sentinel k m @ b"

fun foreign :: "nat \<Rightarrow> foreign_chunk \<Rightarrow> bool" where
  "foreign n (a, k, m, b) = (m \<noteq> n \<and> CHR ''-'' \<notin> set a \<and> CHR ''-'' \<notin> set b)"

text \<open>
  The events between the chunk with the start marker and the chunk with an end sentinel
  that hold no sentinel of the execution, and what they add to \<open>stdout\<close> and \<open>stderr\<close>.
\<close>

fun plain :: "nat \<Rightarrow> exec_event \<Rightarrow> bool" where
  "plain n (StdoutData c) = no_marker n c"
| "plain n (StderrData c) = True"
| "plain n TimerFired = False"

fun outs :: "exec_event list \<Rightarrow> string" where
  "outs [] = []"
| "outs (StdoutData c # evs) = c @ outs evs"
| "outs (ev # evs) = outs evs"

fun errs :: "exec_event list \<Rightarrow> string" where
  "errs [] = []"
| "errs (StderrData c # evs) = c @ errs evs"
| "errs (ev # evs) = errs evs"

text \<open>Decimal digits, and the number a string of digits denotes.\<close>

definition isDigit :: "char \<Rightarrow> bool" where
  "isDigit c = (48 \<le> (of_char c :: nat) \<and> (of_char c :: nat) < 58)"

definition digit_val :: "char \<Rightarrow> nat" where
  "digit_val c = of_char c - 48"

definition dec_val :: "string \<Rightarrow> nat" where
  "dec_val s = foldl (\<lambda>a c. 10 * a + digit_val c) 0 s"

text \<open>Values for the examples.\<close>

definition example_info :: PSSessionInfo where
  "example_info = \<lparr>name = ''work'', sid = ''ps-session-1'', state = Connected,
     computerName = ''localhost'', runspaceId = Some ''runspace-1'', configurationName = None,
     createdAt = 0, lastUsed = 1, isLocal = True, options = Some 2\<rparr>"

section \<open>The session registry (session-manager.ts, PowerShellSessionManager)\<close>

text \<open>
  A session record \<open>{ info, process, connected, commandQueue }\<close> is an object that the
  registry and the closures of its creation share, so it lives in the store as well. A
  subprocess is named by a handle; of a subprocess the model keeps what the manager did
  to it: the texts written to its standard input and the signals sent with \<open>kill\<close>.
  \<open>sessions\<close> is the \<open>Map\<close> of the class, in insertion order. \<open>emitted\<close> lists the
  notifications given to \<open>emit\<close>, oldest first.
\<close>

record session =
  info :: ref
  process :: "nat option"
  connected :: bool
  commandQueue :: "string list"

record child =
  stdin :: "string list"
  signals :: "string list"

datatype notification =
  sessionCreated ref | sessionClosed ref | sessionDisconnected ref | sessionError ref string

record manager =
  sessions :: "(string \<times> ref) list"
  commandId :: nat
  sessionObjs :: "ref \<Rightarrow> session"
  infos :: "ref \<Rightarrow> PSSessionInfo"
  optionObjs :: "ref \<Rightarrow> PSSessionOptions"
  dates :: "ref \<Rightarrow> nat"
  next_ref :: ref
  children :: "nat \<Rightarrow> child"
  next_child :: nat
  emitted :: "notification list"

definition emit :: "notification \<Rightarrow> manager \<Rightarrow> manager" where
  "emit n m = m\<lparr>emitted := emitted m @ [n]\<rparr>"

definition write_stdin :: "nat \<Rightarrow> string \<Rightarrow> manager \<Rightarrow> manager" where
  "write_stdin h text m =
     m\<lparr>children := (children m)(h := (children m h)\<lparr>stdin := stdin (children m h) @ [text]\<rparr>)\<rparr>"

definition kill :: "nat \<Rightarrow> string \<Rightarrow> manager \<Rightarrow> manager" where
  "kill h sig m =
     m\<lparr>children := (children m)(h := (children m h)\<lparr>signals := signals (children m h) @ [sig]\<rparr>)\<rparr>"

text \<open>\<open>spawn\<close>: a new subprocess, nothing written to it and no signal sent.\<close>

definition spawn :: "manager \<Rightarrow> nat \<times> manager" where
  "spawn m = (next_child m,
     m\<lparr>children := (children m)(next_child m := \<lparr>stdin = [], signals = []\<rparr>),
       next_child := Suc (next_child m)\<rparr>)"

text \<open>\<open>new Date()\<close> when the clock reads \<open>now\<close>.\<close>

definition new_Date :: "nat \<Rightarrow> manager \<Rightarrow> ref \<times> manager" where
  "new_Date now m = (next_ref m,
     m\<lparr>dates := (dates m)(next_ref m := now), next_ref := Suc (next_ref m)\<rparr>)"

definition set_state :: "ref \<Rightarrow> session_state \<Rightarrow> manager \<Rightarrow> manager" where
  "set_state r st m = m\<lparr>infos := (infos m)(r := (infos m r)\<lparr>state := st\<rparr>)\<rparr>"

definition set_runspaceId :: "ref \<Rightarrow> string \<Rightarrow> manager \<Rightarrow> manager" where
  "set_runspaceId r rid m = m\<lparr>infos := (infos m)(r := (infos m r)\<lparr>runspaceId := Some rid\<rparr>)\<rparr>"

definition set_connected :: "ref \<Rightarrow> bool \<Rightarrow> manager \<Rightarrow> manager" where
  "set_connected r b m = m\<lparr>sessionObjs := (sessionObjs m)(r := (sessionObjs m r)\<lparr>connected := b\<rparr>)\<rparr>"

text \<open>\<open>this.sessions.has\<close>, \<open>get\<close>, \<open>set\<close> and \<open>delete\<close>.\<close>

definition sessions_has :: "manager \<Rightarrow> string \<Rightarrow> bool" where
  "sessions_has m nm = (map_of (sessions m) nm \<noteq> None)"

definition sessions_get :: "manager \<Rightarrow> string \<Rightarrow> ref option" where
  "sessions_get m nm = map_of (sessions m) nm"

definition sessions_set :: "string \<Rightarrow> ref \<Rightarrow> manager \<Rightarrow> manager" where
  "sessions_set nm r m = m\<lparr>sessions := AList.update nm r (sessions m)\<rparr>"

definition sessions_delete :: "string \<Rightarrow> manager \<Rightarrow> manager" where
  "sessions_delete nm m = m\<lparr>sessions := AList.delete nm (sessions m)\<rparr>"

text \<open>A string is falsy when it is undefined or empty.\<close>

definition truthy :: "string option \<Rightarrow> bool" where
  "truthy s = (case s of None \<Rightarrow> False | Some t \<Rightarrow> t \<noteq> [])"

definition quoted :: "string \<Rightarrow> string" where
  "quoted s = [CHR 0x27] @ s @ [CHR 0x27]"

subsection \<open>createSession\<close>

text \<open>
  The closures of one \<open>createLocalSession\<close> call share \<open>initialized\<close>, the interval
  \<open>readyCheckInterval\<close> (true while it is set), the two timers of \<open>setTimeout\<close> (true
  until they fire) and the promise. \<open>c_runspaceId\<close> is what \<open>generateRunspaceId()\<close> will
  return.
\<close>

record creation =
  c_name :: string
  c_session :: ref
  c_info :: ref
  c_child :: nat
  c_runspaceId :: string
  initialized :: bool
  readyCheckInterval :: bool
  startTimer :: bool
  initTimer :: bool
  c_promise :: "(error + unit) option"

datatype creation_event =
  InitStdout string | InitStderr string | InitError string | InitClose "int option"
  | StartTimerFired | IntervalTick | InitTimeoutFired

definition c_resolve :: "creation \<Rightarrow> creation" where
  "c_resolve c = (if c_promise c = None then c\<lparr>c_promise := Some (Inr ())\<rparr> else c)"

definition c_reject :: "error \<Rightarrow> creation \<Rightarrow> creation" where
  "c_reject err c = (if c_promise c = None then c\<lparr>c_promise := Some (Inl err)\<rparr> else c)"

text \<open>\<open>initTest\<close>: the probe is written unless the session is initialized.\<close>

definition initTest :: "manager \<times> creation \<Rightarrow> manager \<times> creation" where
  "initTest mc = (case mc of (m, c) \<Rightarrow>
     if \<not> initialized c
     then (write_stdin (c_child c) (''Write-Host '' @ [CHR 0x22] @ ''PSREADY'' @ [CHR 0x22, CHR 0x0A]) m, c)
     else (m, c))"

fun creation_step :: "manager \<times> creation \<Rightarrow> creation_event \<Rightarrow> manager \<times> creation" where
  "creation_step (m, c) (InitStdout output) =
     (if \<not> initialized c \<and> str_includes output ''PSREADY''
      then (emit (sessionCreated (c_info c))
              (sessions_set (c_name c) (c_session c)
                (set_runspaceId (c_info c) (c_runspaceId c)
                  (set_state (c_info c) Connected
                    (set_connected (c_session c) True m)))),
            c_resolve (c\<lparr>initialized := True, readyCheckInterval := False\<rparr>))
      else (m, c))"
| "creation_step (m, c) (InitStderr output) = (m, c)"
| "creation_step (m, c) (InitError msg) =
     (let m1 = set_state (c_info c) Failed m; c1 = c\<lparr>readyCheckInterval := False\<rparr>
      in if \<not> initialized c1
         then (m1, c_reject (Error (''Failed to start local PowerShell session: '' @ msg)) c1)
         else (emit (sessionError (c_info c) msg) m1, c1))"
| "creation_step (m, c) (InitClose code) =
     (emit (sessionDisconnected (c_info c))
        (set_connected (c_session c) False (set_state (c_info c) Disconnected m)),
      c\<lparr>readyCheckInterval := False\<rparr>)"
| "creation_step (m, c) StartTimerFired =
     (if startTimer c
      then (if \<not> initialized c
            then (case initTest (m, c\<lparr>startTimer := False\<rparr>) of
                    (m1, c1) \<Rightarrow> (m1, c1\<lparr>readyCheckInterval := True\<rparr>))
            else (m, c\<lparr>startTimer := False\<rparr>))
      else (m, c))"
| "creation_step (m, c) IntervalTick = (if readyCheckInterval c then initTest (m, c) else (m, c))"
| "creation_step (m, c) InitTimeoutFired =
     (if initTimer c
      then (if \<not> initialized c
            then (kill (c_child c) ''SIGTERM'' m,
                  c_reject (Error ''Local PowerShell session initialization timed out'')
                    (c\<lparr>initTimer := False, readyCheckInterval := False\<rparr>))
            else (m, c\<lparr>initTimer := False\<rparr>))
      else (m, c))"

definition creation_run :: "manager \<times> creation \<Rightarrow> creation_event list \<Rightarrow> manager \<times> creation" where
  "creation_run mc evs = foldl creation_step mc evs"

text \<open>
  \<open>createRemoteSession\<close>: nothing is spawned; the session is marked connected and
  registered at once.
\<close>

definition createRemoteSession :: "manager \<Rightarrow> string \<Rightarrow> ref \<Rightarrow> string \<Rightarrow> manager" where
  "createRemoteSession m nm iref rid =
     (let m1 = set_runspaceId iref rid (set_state iref Connected m);
          sref = next_ref m1;
          m2 = m1\<lparr>sessionObjs := (sessionObjs m1)(sref :=
                    \<lparr>info = iref, process = None, connected = True, commandQueue = []\<rparr>),
                  next_ref := Suc sref\<rparr>
      in emit (sessionCreated iref) (sessions_set nm sref m2))"

text \<open>
  \<open>createLocalSession\<close>, up to the point where the promise waits for events: the
  subprocess is spawned and the session record is built, not yet registered.
\<close>

definition createLocalSession :: "manager \<Rightarrow> string \<Rightarrow> ref \<Rightarrow> string \<Rightarrow> manager \<times> creation" where
  "createLocalSession m nm iref rid =
     (case spawn m of (h, m1) \<Rightarrow>
        let sref = next_ref m1;
            m2 = m1\<lparr>sessionObjs := (sessionObjs m1)(sref :=
                      \<lparr>info = iref, process = Some h, connected = False, commandQueue = []\<rparr>),
                    next_ref := Suc sref\<rparr>
        in (m2, \<lparr>c_name = nm, c_session = sref, c_info = iref, c_child = h, c_runspaceId = rid,
                  initialized = False, readyCheckInterval = False, startTimer = True,
                  initTimer = True, c_promise = None\<rparr>))"

text \<open>
  \<open>createSession name options\<close>. \<open>now\<close> is the clock, \<open>sidv\<close> what
  \<open>generateSessionId()\<close> returns, \<open>rid\<close> what \<open>generateRunspaceId()\<close> returns. The options
  object of the caller is placed in the store. The result is the rejection, the
  \<open>sessionInfo\<close> that the promise resolves with (\<open>Created\<close>, for a remote session), or the
  creation that waits for the subprocess (\<open>Creating\<close>, for a local one); when that
  creation resolves, \<open>createSession\<close> resolves with \<open>c_info\<close>, and when it rejects,
  \<open>createSession\<close> rejects with the same error.
\<close>

datatype created = Created ref | Creating creation

definition createSession ::
  "manager \<Rightarrow> string \<Rightarrow> PSSessionOptions \<Rightarrow> nat \<Rightarrow> string \<Rightarrow> string \<Rightarrow> manager \<times> (error + created)" where
  "createSession m nm opts now sidv rid =
     (if sessions_has m nm
      then (m, Inl (Error (''Session '' @ quoted nm @ '' already exists'')))
      else
        let isLoc = \<not> truthy (opt_computerName opts);
            oref = next_ref m;
            m1 = m\<lparr>optionObjs := (optionObjs m)(oref := opts), next_ref := Suc oref\<rparr>
        in case new_Date now m1 of (d1, m2) \<Rightarrow>
           case new_Date now m2 of (d2, m3) \<Rightarrow>
             let iref = next_ref m3;
                 sessionInfo = \<lparr>name = nm, sid = sidv, state = Connecting,
                   computerName = (if truthy (opt_computerName opts)
                                   then the (opt_computerName opts) else ''localhost''),
                   runspaceId = None, configurationName = None, createdAt = d1, lastUsed = d2,
                   isLocal = isLoc, options = Some oref\<rparr>;
                 m4 = m3\<lparr>infos := (infos m3)(iref := sessionInfo), next_ref := Suc iref\<rparr>
             in if isLoc
                then (case createLocalSession m4 nm iref rid of (m5, c) \<Rightarrow> (m5, Inr (Creating c)))
                else (createRemoteSession m4 nm iref rid, Inr (Created iref)))"

subsection \<open>getSession and listSessions\<close>

text \<open>
  \<open>getSession\<close> returns \<open>this.sessions.get(name)?.info\<close>: the reference that the registry
  holds. \<open>listSessions\<close> returns a spread copy \<open>{ ...s.info }\<close> of every record: a new
  object with the same fields, so the references in the fields \<open>options\<close>, \<open>createdAt\<close>
  and \<open>lastUsed\<close> still name the registry's objects.
\<close>

definition getSession :: "manager \<Rightarrow> string \<Rightarrow> ref option" where
  "getSession m nm = map_option (\<lambda>sref. info (sessionObjs m sref)) (sessions_get m nm)"

definition listSessions :: "manager \<Rightarrow> PSSessionInfo list" where
  "listSessions m = map (\<lambda>(nm, sref). infos m (info (sessionObjs m sref))) (sessions m)"

subsection \<open>executeInSession\<close>

text \<open>
  \<open>wrappedCommand\<close>, the command between the markers, as it is written to the
  subprocess.
\<close>

definition wrappedCommand :: "nat \<Rightarrow> string \<Rightarrow> string" where
  "wrappedCommand n command =
     [CHR 0x0A] @ ''Write-Host '' @ [CHR 0x22] @ startMarker n @ [CHR 0x22, CHR 0x0A]
     @ ''try {'' @ [CHR 0x0A, CHR 0x09] @ command @ [CHR 0x0A, CHR 0x09]
     @ ''Write-Host '' @ [CHR 0x22] @ endMarker n @ '':SUCCESS'' @ [CHR 0x22, CHR 0x0A]
     @ ''} catch {'' @ [CHR 0x0A, CHR 0x09] @ ''Write-Error $_.Exception.Message'' @ [CHR 0x0A, CHR 0x09]
     @ ''Write-Host '' @ [CHR 0x22] @ endMarker n @ '':ERROR'' @ [CHR 0x22, CHR 0x0A]
     @ ''}'' @ [CHR 0x0A]"

text \<open>
  \<open>executeInLocalSession\<close>, up to the point where the promise waits for events. Without
  a subprocess, or when the session is not connected, the promise is rejected at once and
  nothing else is done.
\<close>

definition executeInLocalSession :: "manager \<Rightarrow> ref \<Rightarrow> string \<Rightarrow> int \<Rightarrow> manager \<times> exec_state" where
  "executeInLocalSession m sref command t =
     (let notConnected = (m, (exec_init (commandId m) t)\<lparr>timeoutId := False, listening := False,
            outcome := Some (Inl (Error ''Local session is not connected''))\<rparr>)
      in case process (sessionObjs m sref) of
           None \<Rightarrow> notConnected
         | Some h \<Rightarrow>
             if \<not> connected (sessionObjs m sref) then notConnected
             else let n = Suc (commandId m)
                  in (write_stdin h (wrappedCommand n command @ [CHR 0x0A]) (m\<lparr>commandId := n\<rparr>),
                      exec_init n t))"

text \<open>
  An event of a local execution. None of its handlers touches the registry, the session
  record or the subprocess; \<open>{ ...session.info }\<close> is read when the promise resolves.
\<close>

definition local_step :: "manager \<times> ref \<times> exec_state \<Rightarrow> exec_event \<Rightarrow> manager \<times> ref \<times> exec_state" where
  "local_step x ev = (case x of (m, sref, e) \<Rightarrow>
     (m, sref, exec_step (infos m (info (sessionObjs m sref))) e ev))"

text \<open>
  \<open>executeInRemoteSession\<close>: a bridging subprocess is spawned for the call (the script
  given to it is not part of the model), and the promise waits for its events. The timer
  is never cleared.
\<close>

record remote_state =
  r_session :: ref
  r_child :: nat
  r_timeout :: int
  r_stdout :: string
  r_stderr :: string
  r_timer :: bool
  r_promise :: "(error + SessionResult) option"

datatype child_event =
  ChildStdout string | ChildStderr string | ChildClose "int option" | ChildError string
  | TimeoutElapsed

definition r_resolve :: "SessionResult \<Rightarrow> remote_state \<Rightarrow> remote_state" where
  "r_resolve res r = (if r_promise r = None then r\<lparr>r_promise := Some (Inr res)\<rparr> else r)"

definition r_reject :: "error \<Rightarrow> remote_state \<Rightarrow> remote_state" where
  "r_reject err r = (if r_promise r = None then r\<lparr>r_promise := Some (Inl err)\<rparr> else r)"

definition executeInRemoteSession :: "manager \<Rightarrow> ref \<Rightarrow> string \<Rightarrow> int \<Rightarrow> manager \<times> remote_state" where
  "executeInRemoteSession m sref command t =
     (case spawn m of (h, m1) \<Rightarrow>
        (m1, \<lparr>r_session = sref, r_child = h, r_timeout = t, r_stdout = [], r_stderr = [],
               r_timer = True, r_promise = None\<rparr>))"

text \<open>
  The exit code of the \<open>close\<close> event is a number or \<open>null\<close> (\<open>None\<close>, when a signal ended
  the subprocess); \<open>code === 0\<close> is false for \<open>null\<close>.
\<close>

fun remote_step :: "manager \<times> remote_state \<Rightarrow> child_event \<Rightarrow> manager \<times> remote_state" where
  "remote_step (m, r) (ChildStdout text) = (m, r\<lparr>r_stdout := r_stdout r @ text\<rparr>)"
| "remote_step (m, r) (ChildStderr text) = (m, r\<lparr>r_stderr := r_stderr r @ text\<rparr>)"
| "remote_step (m, r) (ChildClose code) =
     (m, r_resolve \<lparr>res_stdout = trim (r_stdout r), res_stderr = trim (r_stderr r),
                     res_success = (code = Some 0),
                     res_sessionInfo = infos m (info (sessionObjs m (r_session r)))\<rparr> r)"
| "remote_step (m, r) (ChildError msg) =
     (m, r_reject (Error (''Remote session execution failed: '' @ msg)) r)"
| "remote_step (m, r) TimeoutElapsed =
     (if r_timer r
      then (kill (r_child r) ''SIGTERM'' m,
            r_reject (Error (''Remote command timed out after '' @ show_int (r_timeout r) @ ''ms''))
              (r\<lparr>r_timer := False\<rparr>))
      else (m, r))"

definition remote_run :: "manager \<times> remote_state \<Rightarrow> child_event list \<Rightarrow> manager \<times> remote_state" where
  "remote_run mr evs = foldl remote_step mr evs"

text \<open>
  \<open>executeInSession\<close>. An absent \<open>timeout\<close> is 30000; a timeout is a whole number of
  milliseconds. The result is the rejection for an unknown name, or the execution that
  was started.
\<close>

datatype execution = LocalExec ref exec_state | RemoteExec remote_state

definition executeInSession ::
  "manager \<Rightarrow> string \<Rightarrow> string \<Rightarrow> int option \<Rightarrow> nat \<Rightarrow> manager \<times> (error + execution)" where
  "executeInSession m nm command timeout now =
     (case sessions_get m nm of
        None \<Rightarrow> (m, Inl (Error (''Session '' @ quoted nm @ '' not found'')))
      | Some sref \<Rightarrow>
          let t = (case timeout of None \<Rightarrow> 30000 | Some v \<Rightarrow> v);
              iref = info (sessionObjs m sref)
          in case new_Date now m of (d, m1) \<Rightarrow>
             let m2 = m1\<lparr>infos := (infos m1)(iref := (infos m1 iref)\<lparr>lastUsed := d\<rparr>)\<rparr>
             in if isLocal (infos m2 iref)
                then (case executeInLocalSession m2 sref command t of
                        (m3, e) \<Rightarrow> (m3, Inr (LocalExec sref e)))
                else (case executeInRemoteSession m2 sref command t of
                        (m3, r) \<Rightarrow> (m3, Inr (RemoteExec r))))"

subsection \<open>closeSession\<close>

text \<open>
  \<open>closeSession name\<close>. For a remote session the call awaits one more bridging
  execution, whose events are \<open>evs\<close>, and ignores how it ends; while that execution is
  pending so is the call (\<open>None\<close>). Otherwise the promise resolves (\<open>Some (Inr ())\<close>).
\<close>

definition finishClose :: "string \<Rightarrow> ref \<Rightarrow> manager \<Rightarrow> manager \<times> (error + unit) option" where
  "finishClose nm iref m = (emit (sessionClosed iref) (sessions_delete nm m), Some (Inr ()))"

definition closeRemote ::
  "manager \<Rightarrow> string \<Rightarrow> ref \<Rightarrow> child_event list \<Rightarrow> manager \<times> (error + unit) option" where
  "closeRemote m nm sref evs =
     (case remote_run
             (executeInRemoteSession m sref
                (''Remove-PSSession -Name '' @ quoted nm @ '' -ErrorAction SilentlyContinue'') 5000)
             evs of
        (m1, r) \<Rightarrow>
          (if r_promise r = None then (m1, None)
           else finishClose nm (info (sessionObjs m sref)) m1))"

definition closeSession ::
  "manager \<Rightarrow> string \<Rightarrow> child_event list \<Rightarrow> manager \<times> (error + unit) option" where
  "closeSession m nm evs =
     (case sessions_get m nm of
        None \<Rightarrow> (m, Some (Inr ()))
      | Some sref \<Rightarrow>
          (case process (sessionObjs m sref) of
             Some h \<Rightarrow>
               finishClose nm (info (sessionObjs m sref))
                 (kill h ''SIGTERM'' (write_stdin h (''exit'' @ [CHR 0x0A]) m))
           | None \<Rightarrow>
               (if \<not> isLocal (infos m (info (sessionObjs m sref)))
                then closeRemote m nm sref evs
                else finishClose nm (info (sessionObjs m sref)) m)))"

text \<open>A run of a local execution inside the manager.\<close>

definition local_run ::
  "manager \<times> ref \<times> exec_state \<Rightarrow> exec_event list \<Rightarrow> manager \<times> ref \<times> exec_state" where
  "local_run x evs = foldl local_step x evs"

subsection \<open>Invariants\<close>

text \<open>
  While a creation is not initialized it has not registered its session (\<open>S\<close> is the
  registry when it began), and once it is initialized its promise is settled.
\<close>

definition cinv :: "(string \<times> ref) list \<Rightarrow> manager \<times> creation \<Rightarrow> bool" where
  "cinv S mc = (case mc of (m, c) \<Rightarrow>
     (initialized c \<longrightarrow> c_promise c \<noteq> None) \<and> (\<not> initialized c \<longrightarrow> sessions m = S))"

text \<open>
  While the promise of a local execution is pending, its timer is armed, it has not
  completed and its handlers are attached.
\<close>

definition einv :: "exec_state \<Rightarrow> bool" where
  "einv e = (outcome e = None \<longrightarrow> timeoutId e \<and> \<not> completed e \<and> listening e)"

subsection \<open>Values for the examples\<close>

text \<open>
  \<open>example_mgr\<close> holds one connected local session \<open>work\<close>; every cell of its store
  holds the same object. \<open>example_remote_mgr\<close> is the empty manager after the remote
  session \<open>db\<close> was created.
\<close>

definition no_options :: PSSessionOptions where
  "no_options = \<lparr>opt_computerName = None, opt_credential = None, opt_authentication = None,
     opt_port = None, opt_useSSL = None, opt_timeout = None\<rparr>"

definition empty_manager :: manager where
  "empty_manager = \<lparr>sessions = [], commandId = 0,
     sessionObjs = (\<lambda>r. \<lparr>info = 0, process = None, connected = False, commandQueue = []\<rparr>),
     infos = (\<lambda>r. example_info), optionObjs = (\<lambda>r. no_options), dates = (\<lambda>r. 0),
     next_ref = 0, children = (\<lambda>h. \<lparr>stdin = [], signals = []\<rparr>), next_child = 0,
     emitted = []\<rparr>"

definition example_mgr :: manager where
  "example_mgr = \<lparr>sessions = [(''work'', 4)], commandId = 0,
     sessionObjs = (\<lambda>r. \<lparr>info = 3, process = Some 0, connected = True, commandQueue = []\<rparr>),
     infos = (\<lambda>r. example_info), optionObjs = (\<lambda>r. no_options), dates = (\<lambda>r. 0),
     next_ref = 5, children = (\<lambda>h. \<lparr>stdin = [], signals = []\<rparr>), next_child = 1,
     emitted = [sessionCreated 3]\<rparr>"

definition example_remote_options :: PSSessionOptions where
  "example_remote_options = no_options\<lparr>opt_computerName := Some ''db01''\<rparr>"

definition example_remote_mgr :: manager where
  "example_remote_mgr =
     fst (createSession empty_manager ''db'' example_remote_options 7 ''ps-session-7'' ''runspace-7'')"

definition example_started :: manager where
  "example_started = fst (executeInSession example_mgr ''work'' ''Start-Sleep -Seconds 3'' (Some 500) 9)"

definition example_creation :: creation where
  "example_creation = \<lparr>c_name = ''work'', c_session = 4, c_info = 3, c_child = 0,
     c_runspaceId = ''runspace-1'', initialized = False, readyCheckInterval = False,
     startTimer = True, initTimer = True, c_promise = None\<rparr>"

definition example_creating :: "manager \<times> creation" where
  "example_creating =
     (fst (createSession empty_manager ''work'' no_options 0 ''ps-session-1'' ''runspace-1''),
      example_creation)"

section \<open>One-shot execution (powershell.ts, executePowerShellDirect and executePowerShell)\<close>

record PowerShellResult =
  ps_stdout :: string
  ps_stderr :: string
  ps_exitCode :: int
  ps_success :: bool

text \<open>
  The variables of one \<open>executePowerShellDirect\<close> call: \<open>stdout\<close>, \<open>stderr\<close>, the timer
  (\<open>d_timeoutId\<close>, true while a timer is armed; none is set unless \<open>timeout > 0\<close>), the
  signals sent to the child, and the promise. The handlers call \<open>resolve\<close> only.
  \<open>TimeoutElapsed\<close> is the moment \<open>timeout\<close> milliseconds after the call; the callback
  runs then if a timer is armed. The streaming callback \<open>onData\<close> is not part of the
  model.
\<close>

record direct_state =
  d_timeout :: int
  d_stdout :: string
  d_stderr :: string
  d_timeoutId :: bool
  d_signals :: "string list"
  d_promise :: "(error + PowerShellResult) option"

definition d_resolve :: "PowerShellResult \<Rightarrow> direct_state \<Rightarrow> direct_state" where
  "d_resolve res s = (if d_promise s = None then s\<lparr>d_promise := Some (Inr res)\<rparr> else s)"

definition direct_init :: "int \<Rightarrow> direct_state" where
  "direct_init t = \<lparr>d_timeout = t, d_stdout = [], d_stderr = [], d_timeoutId = (0 < t),
     d_signals = [], d_promise = None\<rparr>"

fun direct_step :: "direct_state \<Rightarrow> child_event \<Rightarrow> direct_state" where
  "direct_step s (ChildStdout chunk) = s\<lparr>d_stdout := d_stdout s @ chunk\<rparr>"
| "direct_step s (ChildStderr chunk) = s\<lparr>d_stderr := d_stderr s @ chunk\<rparr>"
| "direct_step s (ChildClose code) =
     d_resolve \<lparr>ps_stdout = trim (d_stdout s), ps_stderr = trim (d_stderr s),
                 ps_exitCode = (case code of None \<Rightarrow> 0 | Some c \<Rightarrow> c),
                 ps_success = ((case code of None \<Rightarrow> 0 | Some c \<Rightarrow> c) = 0)\<rparr>
       (s\<lparr>d_timeoutId := False\<rparr>)"
| "direct_step s (ChildError msg) =
     d_resolve \<lparr>ps_stdout = d_stdout s, ps_stderr = ''Failed to start PowerShell: '' @ msg,
                 ps_exitCode = - 1, ps_success = False\<rparr>
       (s\<lparr>d_timeoutId := False\<rparr>)"
| "direct_step s TimeoutElapsed =
     (if d_timeoutId s
      then d_resolve \<lparr>ps_stdout = d_stdout s,
                       ps_stderr = d_stderr s @ [CHR 0x0A] @ ''Command timed out after ''
                                   @ show_int (d_timeout s) @ ''ms'',
                       ps_exitCode = - 1, ps_success = False\<rparr>
             (s\<lparr>d_timeoutId := False, d_signals := d_signals s @ [''SIGTERM'']\<rparr>)
      else s)"

text \<open>
  What \<open>spawn\<close> does before it returns is a parameter of the model:
  \<open>spawn_throws file args cwd\<close> is \<open>None\<close> when \<open>spawn\<close> returns a child, and
  \<open>Some msg\<close> when it throws an error with that message (Node's \<open>spawn\<close> throws for an
  argument or a working directory that holds a NUL character). \<open>spawn\<close> is called inside
  the executor of the promise, so a throw rejects the promise.
\<close>

type_synonym spawn_check = "string \<Rightarrow> string list \<Rightarrow> string option \<Rightarrow> string option"

definition utf8Prefix :: string where
  "utf8Prefix = ''[Console]::OutputEncoding = [System.Text.Encoding]::UTF8; ''
     @ ''$OutputEncoding = [System.Text.Encoding]::UTF8; ''"

definition pwshArgs :: "string \<Rightarrow> string list" where
  "pwshArgs command = [''-NoProfile'', ''-NonInteractive'', ''-ExecutionPolicy'', ''Bypass'',
     ''-Command'', utf8Prefix @ command]"

text \<open>
  \<open>executePowerShellDirect\<close>: the promise after the events \<open>evs\<close> of the child, or the
  rejection when \<open>spawn\<close> threw. An absent \<open>timeout\<close> is 30000; a timeout is a whole
  number of milliseconds.
\<close>

definition the_timeout :: "int option \<Rightarrow> int" where
  "the_timeout timeout = (case timeout of None \<Rightarrow> 30000 | Some t \<Rightarrow> t)"

definition executePowerShellDirect ::
  "spawn_check \<Rightarrow> string \<Rightarrow> int option \<Rightarrow> string option \<Rightarrow> child_event list
     \<Rightarrow> (error + PowerShellResult) option" where
  "executePowerShellDirect spawn_throws command timeout workingDirectory evs =
     (case spawn_throws ''pwsh'' (pwshArgs command) workingDirectory of
        Some msg \<Rightarrow> Some (Inl (Error msg))
      | None \<Rightarrow> d_promise (foldl direct_step (direct_init (the_timeout timeout)) evs))"

text \<open>
  \<open>executePowerShell\<close>: the first execution with the events \<open>evs1\<close>, and after a failure
  whose error text names a batch file (\<open>retries\<close>), a second one of \<open>cmd /c "command"\<close>
  with the events \<open>evs2\<close>. An \<open>await\<close> on a pending promise waits, on a rejected one
  throws.
\<close>

definition isWin32Error :: "string \<Rightarrow> bool" where
  "isWin32Error err =
     (str_includes err (''no es una aplicaci'' @ [CHR 0xF3] @ ''n Win32 v'' @ [CHR 0xE1] @ ''lida'')
      \<or> str_includes err ''is not a valid Win32 application''
      \<or> str_includes err ''cannot run due to the error'')"

definition retries :: "PowerShellResult \<Rightarrow> bool" where
  "retries firstResult = (\<not> ps_success firstResult \<and> isWin32Error (ps_stderr firstResult))"

definition retryCommand :: "string \<Rightarrow> string" where
  "retryCommand command = ''cmd /c '' @ [CHR 0x22] @ command @ [CHR 0x22]"

definition executePowerShell ::
  "spawn_check \<Rightarrow> string \<Rightarrow> int option \<Rightarrow> string option \<Rightarrow> child_event list \<Rightarrow> child_event list
     \<Rightarrow> (error + PowerShellResult) option" where
  "executePowerShell spawn_throws command timeout workingDirectory evs1 evs2 =
     (case executePowerShellDirect spawn_throws command (Some (the_timeout timeout))
             workingDirectory evs1 of
        None \<Rightarrow> None
      | Some (Inl err) \<Rightarrow> Some (Inl err)
      | Some (Inr firstResult) \<Rightarrow>
          (if retries firstResult
           then executePowerShellDirect spawn_throws (retryCommand command)
                  (Some (the_timeout timeout)) workingDirectory evs2
           else Some (Inr firstResult)))"

text \<open>
  For the examples: a \<open>spawn\<close> that refuses a NUL character in the file, in an argument or
  in the working directory, and accepts everything else.
\<close>

definition nul_spawn :: spawn_check where
  "nul_spawn file args cwd =
     (if list_ex (\<lambda>a. CHR 0x00 \<in> set a) (file # args @ (case cwd of None \<Rightarrow> [] | Some d \<Rightarrow> [d]))
      then Some ''must be a string without null bytes'' else None)"

text \<open>
  An event that settles the promise of a one-shot execution with timeout \<open>t\<close>; what the
  child wrote on its two streams.
\<close>

fun terminal :: "int \<Rightarrow> child_event \<Rightarrow> bool" where
  "terminal t (ChildClose code) = True"
| "terminal t (ChildError msg) = True"
| "terminal t TimeoutElapsed = (0 < t)"
| "terminal t ev = False"

definition settling :: "int \<Rightarrow> child_event list \<Rightarrow> bool" where
  "settling t evs = list_ex (terminal t) evs"

fun child_out :: "child_event list \<Rightarrow> string" where
  "child_out [] = []"
| "child_out (ChildStdout c # evs) = c @ child_out evs"
| "child_out (ev # evs) = child_out evs"

fun child_err :: "child_event list \<Rightarrow> string" where
  "child_err [] = []"
| "child_err (ChildStderr c # evs) = c @ child_err evs"
| "child_err (ev # evs) = child_err evs"

section \<open>The job registry (job-helpers.ts)\<close>

text \<open>
  The field \<open>name\<close> of a job is called \<open>j_name\<close>, its \<open>command\<close> \<open>j_command\<close>. \<open>jobs\<close> is
  the \<open>Map\<close> of the module, in insertion order.
\<close>

record TrackedJob =
  pid :: int
  j_name :: string
  j_command :: string
  workingDirectory :: string
  stdoutFile :: "string option"
  stderrFile :: "string option"
  startedAt :: nat

type_synonym jobs = "(string \<times> TrackedJob) list"

text \<open>
  What a tool gives to \<open>run\<close>, one constructor for each template of the source:
  \<^item> \<open>StartProcess workDir command stdoutFile stderrTarget\<close>: the \<open>Start-Process\<close> line of
    \<open>pwsh-start-job\<close> (its text is built from these by \<open>bashEnvToPS\<close>, the redirection and
    the quoting, which the model leaves out);
  \<^item> \<open>GetProcess p\<close>: \<open>Get-Process -Id p -ErrorAction SilentlyContinue\<close>, with or without
    the projection to JSON;
  \<^item> \<open>GetContent f n\<close>: \<open>Get-Content 'f' -Tail n -ErrorAction SilentlyContinue\<close>;
  \<^item> \<open>StopProcess p\<close>: \<open>Stop-Process -Id p -Force -ErrorAction SilentlyContinue\<close>;
  \<^item> \<open>RemoveItem fs\<close>: \<open>Remove-Item 'f1','f2' -Force -ErrorAction SilentlyContinue\<close>;
  \<^item> \<open>ClearContent f\<close>: \<open>'' | Set-Content 'f'\<close>.
\<close>

datatype ps_command =
  StartProcess string string "string option" string
  | GetProcess int
  | GetContent string nat
  | StopProcess int
  | RemoveItem "string list"
  | ClearContent string

text \<open>The \<open>details\<close> of a tool result: \<open>success\<close> and, when given, the \<open>pid\<close>.\<close>

record job_result =
  jr_success :: bool
  jr_pid :: "int option"

definition job_failed :: job_result where
  "job_failed = \<lparr>jr_success = False, jr_pid = None\<rparr>"

definition job_ok :: "int option \<Rightarrow> job_result" where
  "job_ok p = \<lparr>jr_success = True, jr_pid = p\<rparr>"

text \<open>
  \<open>parseInt(s, 10)\<close>: white space, an optional sign, then as many decimal digits as there
  are; \<open>NaN\<close> (\<open>None\<close>) without a digit.
\<close>

definition parseInt10 :: "string \<Rightarrow> int option" where
  "parseInt10 s =
     (let s1 = dropWhile isSpace s;
          neg = (s1 \<noteq> [] \<and> hd s1 = CHR ''-'');
          s2 = (if s1 \<noteq> [] \<and> (hd s1 = CHR ''-'' \<or> hd s1 = CHR ''+'') then tl s1 else s1);
          ds = takeWhile isDigit s2
      in if ds = [] then None
         else Some (if neg then - int (dec_val ds) else int (dec_val ds)))"

text \<open>
  \<open>pwsh-start-job\<close>. \<open>tmpfile name\<close> is the default log file of the job, \<open>cwd\<close> the
  directory of the context, \<open>r\<close> what \<open>run\<close> returns for the \<open>Start-Process\<close> line, \<open>now\<close>
  the clock.
\<close>

definition start_job ::
  "(string \<Rightarrow> string) \<Rightarrow> string \<Rightarrow> PowerShellResult \<Rightarrow> nat \<Rightarrow> jobs
     \<Rightarrow> string \<Rightarrow> string \<Rightarrow> string option \<Rightarrow> string option \<Rightarrow> string option
     \<Rightarrow> job_result \<times> jobs \<times> ps_command list" where
  "start_job tmpfile cwd r now jobs nm command wd out err =
     (if map_of jobs nm \<noteq> None then (job_failed, jobs, [])
      else
        let workDir = (if truthy wd then the wd else cwd);
            stdoutF = (if out = Some ''null'' then None
                       else if truthy out then out else Some (tmpfile nm));
            stderrTarget = (if truthy err then the err else ''stdout'');
            stderrF = (if stderrTarget = ''null'' then None
                       else if stderrTarget = ''stdout'' then None else Some stderrTarget);
            cmds = [StartProcess workDir command stdoutF stderrTarget]
        in if \<not> ps_success r \<or> trim (ps_stdout r) = [] then (job_failed, jobs, cmds)
           else case parseInt10 (trim (ps_stdout r)) of
                  None \<Rightarrow> (job_failed, jobs, cmds)
                | Some p \<Rightarrow>
                    (job_ok (Some p),
                     AList.update nm \<lparr>pid = p, j_name = nm, j_command = command,
                       workingDirectory = workDir, stdoutFile = stdoutF, stderrFile = stderrF,
                       startedAt = now\<rparr> jobs,
                     cmds))"

text \<open>The commands that read the tail of a file when the path is set.\<close>

definition tail_of :: "string option \<Rightarrow> nat \<Rightarrow> ps_command list" where
  "tail_of f n = (if truthy f then [GetContent (the f) n] else [])"

definition clear_of :: "string option \<Rightarrow> ps_command list" where
  "clear_of f = (if truthy f then [ClearContent (the f)] else [])"

text \<open>\<open>pwsh-get-job\<close>: the status of one job, or of every job without a name.\<close>

definition get_job :: "jobs \<Rightarrow> string option \<Rightarrow> bool \<Rightarrow> job_result \<times> jobs \<times> ps_command list" where
  "get_job jobs nm includeOutput =
     (if truthy nm
      then (case map_of jobs (the nm) of
              None \<Rightarrow> (job_failed, jobs, [])
            | Some job \<Rightarrow>
                (job_ok (Some (pid job)), jobs,
                 GetProcess (pid job)
                 # (if includeOutput
                    then tail_of (stdoutFile job) 50 @ tail_of (stderrFile job) 20 else [])))
      else (job_ok None, jobs, map (\<lambda>(jn, job). GetProcess (pid job)) jobs))"

text \<open>\<open>pwsh-stop-job\<close>.\<close>

definition stop_job :: "jobs \<Rightarrow> string \<Rightarrow> job_result \<times> jobs \<times> ps_command list" where
  "stop_job jobs nm =
     (case map_of jobs nm of
        None \<Rightarrow> (job_failed, jobs, [])
      | Some job \<Rightarrow> (job_ok (Some (pid job)), jobs, [StopProcess (pid job)]))"

text \<open>
  \<open>pwsh-remove-job\<close>. \<open>[job.stdoutFile, job.stderrFile].filter(Boolean)\<close> keeps the paths
  that are set and not empty.
\<close>

definition output_files :: "TrackedJob \<Rightarrow> string list" where
  "output_files job = map the (filter truthy [stdoutFile job, stderrFile job])"

definition remove_job :: "jobs \<Rightarrow> string \<Rightarrow> bool \<Rightarrow> job_result \<times> jobs \<times> ps_command list" where
  "remove_job jobs nm force =
     (case map_of jobs nm of
        None \<Rightarrow> (job_failed, jobs, [])
      | Some job \<Rightarrow>
          (job_ok (Some (pid job)), AList.delete nm jobs,
           (if force then [StopProcess (pid job)] else [])
           @ (if output_files job \<noteq> [] then [RemoveItem (output_files job)] else [])))"

text \<open>\<open>pwsh-get-job-output\<close>.\<close>

definition get_job_output :: "jobs \<Rightarrow> string \<Rightarrow> bool \<Rightarrow> job_result \<times> jobs \<times> ps_command list" where
  "get_job_output jobs nm keep =
     (case map_of jobs nm of
        None \<Rightarrow> (job_failed, jobs, [])
      | Some job \<Rightarrow>
          (job_ok (Some (pid job)), jobs,
           tail_of (stdoutFile job) 100 @ tail_of (stderrFile job) 50
           @ (if \<not> keep then clear_of (stdoutFile job) @ clear_of (stderrFile job) else [])))"

text \<open>A call of one of the five tools, and what it does to the registry.\<close>

datatype job_call =
  StartJob string string "string option" "string option" "string option"
  | GetJob "string option" bool
  | StopJob string
  | RemoveJob string bool
  | GetJobOutput string bool

fun job_tool ::
  "(string \<Rightarrow> string) \<Rightarrow> string \<Rightarrow> PowerShellResult \<Rightarrow> nat \<Rightarrow> jobs \<Rightarrow> job_call
     \<Rightarrow> job_result \<times> jobs \<times> ps_command list" where
  "job_tool tmpfile cwd r now jobs (StartJob nm command wd out err) =
     start_job tmpfile cwd r now jobs nm command wd out err"
| "job_tool tmpfile cwd r now jobs (GetJob nm includeOutput) = get_job jobs nm includeOutput"
| "job_tool tmpfile cwd r now jobs (StopJob nm) = stop_job jobs nm"
| "job_tool tmpfile cwd r now jobs (RemoveJob nm force) = remove_job jobs nm force"
| "job_tool tmpfile cwd r now jobs (GetJobOutput nm keep) = get_job_output jobs nm keep"

fun is_remove :: "job_call \<Rightarrow> bool" where
  "is_remove (RemoveJob nm force) = True"
| "is_remove c = False"

fun deletes_files :: "ps_command \<Rightarrow> bool" where
  "deletes_files (RemoveItem fs) = True"
| "deletes_files c = False"

text \<open>A tracked job, and what \<open>run\<close> returns for a \<open>Start-Process\<close> line that worked.\<close>

definition example_job :: TrackedJob where
  "example_job = \<lparr>pid = 4242, j_name = ''j1'', j_command = ''npm run dev'',
     workingDirectory = ''C:/work'', stdoutFile = Some ''C:/tmp/pi-job-j1-ab12cd-stdout.log'',
     stderrFile = None, startedAt = 5\<rparr>"

definition example_jobs :: jobs where
  "example_jobs = [(''j1'', example_job)]"

definition example_run :: PowerShellResult where
  "example_run = \<lparr>ps_stdout = ''4343'', ps_stderr = [], ps_exitCode = 0, ps_success = True\<rparr>"

section \<open>Properties of the stream framer\<close>

lemma startsWith_iff: "startsWith t p \<longleftrightarrow> (\<exists>v. t = p @ v)"
  by (induction t p rule: startsWith.induct) auto

lemma str_includes_iff: "str_includes t p \<longleftrightarrow> (\<exists>u v. t = u @ p @ v)"
proof (induction t)
  case Nil
  then show ?case by auto
next
  case (Cons c cs)
  show ?case
  proof
    assume "str_includes (c # cs) p"
    then consider "startsWith (c # cs) p" | "str_includes cs p" by auto
    then show "\<exists>u v. c # cs = u @ p @ v"
    proof cases
      case 1
      then obtain v where "c # cs = p @ v" by (auto simp: startsWith_iff)
      then have "c # cs = [] @ p @ v" by simp
      then show ?thesis by blast
    next
      case 2
      then obtain u v where "cs = u @ p @ v" using Cons.IH by blast
      then have "c # cs = (c # u) @ p @ v" by simp
      then show ?thesis by blast
    qed
  next
    assume "\<exists>u v. c # cs = u @ p @ v"
    then obtain u v where uv: "c # cs = u @ p @ v" by blast
    show "str_includes (c # cs) p"
    proof (cases u)
      case Nil
      with uv have "startsWith (c # cs) p" by (auto simp: startsWith_iff)
      then show ?thesis by simp
    next
      case (Cons a u')
      with uv have "cs = u' @ p @ v" by simp
      then have "str_includes cs p" using Cons.IH by blast
      then show ?thesis by simp
    qed
  qed
qed

lemma digit_cases: "d < 10 \<Longrightarrow> d \<in> {0, 1, 2, 3, 4, 5, 6, 7, 8, 9::nat}"
  by auto

lemma digit_val_digit_char: "d < 10 \<Longrightarrow> digit_val (digit_char d) = d"
  using digit_cases [of d] by (auto simp: digit_char_def digit_val_def)

lemma isDigit_digit_char: "d < 10 \<Longrightarrow> isDigit (digit_char d)"
  using digit_cases [of d] by (auto simp: digit_char_def isDigit_def)

lemma show_nat_digits: "c \<in> set (show_nat n) \<Longrightarrow> isDigit c"
proof (induction n arbitrary: c rule: show_nat.induct)
  case (1 n)
  show ?case
  proof (cases "n < 10")
    case True
    with "1.prems" show ?thesis
      by (simp add: show_nat.simps [of n] isDigit_digit_char)
  next
    case False
    with "1.prems" have "c \<in> set (show_nat (n div 10)) \<or> c = digit_char (n mod 10)"
      by (auto simp: show_nat.simps [of n])
    then show ?thesis
      using "1.IH" False by (auto simp: isDigit_digit_char)
  qed
qed

lemma dec_val_show_nat: "dec_val (show_nat n) = n"
proof (induction n rule: show_nat.induct)
  case (1 n)
  show ?case
  proof (cases "n < 10")
    case True
    then show ?thesis
      by (simp add: show_nat.simps [of n] dec_val_def digit_val_digit_char)
  next
    case False
    then have "dec_val (show_nat (n div 10)) = n div 10" using "1.IH" by simp
    with False show ?thesis
      by (simp add: show_nat.simps [of n] dec_val_def digit_val_digit_char)
  qed
qed

lemma show_nat_inj: "show_nat m = show_nat n \<Longrightarrow> m = n"
  by (metis dec_val_show_nat)

lemma digits_then_dash:
  assumes "show_nat m @ CHR ''-'' # r = show_nat n @ CHR ''-'' # r'"
  shows "m = n"
proof -
  have nd: "\<not> isDigit CHR ''-''" by (simp add: isDigit_def)
  have "takeWhile isDigit (show_nat m @ CHR ''-'' # r) = show_nat m"
    using nd by (simp add: show_nat_digits)
  moreover have "takeWhile isDigit (show_nat n @ CHR ''-'' # r') = show_nat n"
    using nd by (simp add: show_nat_digits)
  ultimately have "show_nat m = show_nat n" using assms by simp
  then show ?thesis by (rule show_nat_inj)
qed

lemma anchored:
  assumes x: "x \<notin> set a" "x \<notin> set b" "\<not> isDigit x" "x \<notin> set suf" "x \<noteq> CHR ''-''"
    and eq: "(a @ x # b) @ show_nat m @ ''---'' @ suf
           = u @ ((a @ x # b) @ show_nat n @ ''---'' @ suf') @ v"
  shows "m = n"
proof -
  have notin: "x \<notin> set (b @ show_nat m @ ''---'' @ suf)"
    using x show_nat_digits by auto
  have "a @ x # (b @ show_nat m @ ''---'' @ suf)
      = (u @ a) @ x # (b @ show_nat n @ ''---'' @ suf' @ v)"
    using eq by simp
  then have "b @ show_nat m @ ''---'' @ suf = b @ show_nat n @ ''---'' @ suf' @ v"
    using append_Cons_eq_iff [OF x(1) notin] by blast
  then have "show_nat m @ CHR ''-'' # (''--'' @ suf) = show_nat n @ CHR ''-'' # (''--'' @ suf' @ v)"
    by simp
  then show ?thesis by (rule digits_then_dash)
qed

lemma start_in_start: "str_includes (startMarker m) (startMarker n) \<Longrightarrow> m = n"
proof -
  assume "str_includes (startMarker m) (startMarker n)"
  then obtain u v where "startMarker m = u @ startMarker n @ v"
    by (auto simp: str_includes_iff)
  then have "(''---ST'' @ CHR ''A'' # ''RT-'') @ show_nat m @ ''---'' @ []
      = u @ ((''---ST'' @ CHR ''A'' # ''RT-'') @ show_nat n @ ''---'' @ []) @ v"
    by (simp add: startMarker_def)
  then show "m = n"
    by (rule anchored [rotated -1]) (simp_all add: isDigit_def)
qed

lemma end_in_end:
  assumes "suf \<in> {'':SUCCESS'', '':ERROR''}"
    and "str_includes (endMarker m @ suf) (endMarker n @ suf')"
  shows "m = n"
proof -
  obtain u v where "endMarker m @ suf = u @ (endMarker n @ suf') @ v"
    using assms(2) by (auto simp: str_includes_iff)
  then have eq: "(''---E'' @ CHR ''N'' # ''D-'') @ show_nat m @ ''---'' @ suf
      = u @ ((''---E'' @ CHR ''N'' # ''D-'') @ show_nat n @ ''---'' @ suf') @ v"
    by (simp add: endMarker_def)
  show "m = n"
    by (rule anchored [OF _ _ _ _ _ eq]) (use assms(1) in \<open>auto simp: isDigit_def\<close>)
qed

lemma includes_set: "str_includes t p \<Longrightarrow> set p \<subseteq> set t"
  by (auto simp: str_includes_iff)

lemma A_in_start: "CHR ''A'' \<in> set (startMarker n)"
  by (simp add: startMarker_def)

lemma N_in_end: "CHR ''N'' \<in> set (endMarker n)"
  by (simp add: endMarker_def)

lemma A_notin_end: "suf \<in> {'':SUCCESS'', '':ERROR''} \<Longrightarrow> CHR ''A'' \<notin> set (endMarker m @ suf)"
  using show_nat_digits [of "CHR ''A''" m] by (auto simp: endMarker_def isDigit_def)

lemma N_notin_start: "CHR ''N'' \<notin> set (startMarker m)"
  using show_nat_digits [of "CHR ''N''" m] by (auto simp: startMarker_def isDigit_def)

lemma foreign_sentinel_no_marker:
  assumes "m \<noteq> n"
  shows "no_marker n (sentinel k m)"
proof (cases k)
  case Start
  have "\<not> str_includes (startMarker m) (startMarker n)"
    using assms start_in_start by blast
  moreover have "\<not> str_includes (startMarker m) (endMarker n @ suf)" for suf
    using includes_set [of "startMarker m" "endMarker n @ suf"] N_in_end [of n] N_notin_start [of m]
    by auto
  ultimately show ?thesis
    using Start by (simp add: no_marker_def endSuccess_def endError_def)
next
  case EndSuccess
  have "\<not> str_includes (endMarker m @ '':SUCCESS'') (startMarker n)"
    using includes_set [of "endMarker m @ '':SUCCESS''" "startMarker n"] A_in_start [of n]
      A_notin_end [of "'':SUCCESS''" m] by auto
  moreover have "\<not> str_includes (endMarker m @ '':SUCCESS'') (endMarker n @ suf)" for suf
    using assms end_in_end [of "'':SUCCESS''" m n suf] by auto
  ultimately show ?thesis
    using EndSuccess by (simp add: no_marker_def endSuccess_def endError_def)
next
  case EndError
  have "\<not> str_includes (endMarker m @ '':ERROR'') (startMarker n)"
    using includes_set [of "endMarker m @ '':ERROR''" "startMarker n"] A_in_start [of n]
      A_notin_end [of "'':ERROR''" m] by auto
  moreover have "\<not> str_includes (endMarker m @ '':ERROR'') (endMarker n @ suf)" for suf
    using assms end_in_end [of "'':ERROR''" m n suf] by auto
  ultimately show ?thesis
    using EndError by (simp add: no_marker_def endSuccess_def endError_def)
qed

lemma includes_append: "str_includes (a @ p @ b) p"
  by (auto simp: str_includes_iff)

lemma includes_trans: "str_includes t p \<Longrightarrow> str_includes p q \<Longrightarrow> str_includes t q"
proof -
  assume "str_includes t p" "str_includes p q"
  then obtain u v u' v' where "t = u @ p @ v" "p = u' @ q @ v'"
    by (auto simp: str_includes_iff)
  then have "t = (u @ u') @ q @ (v' @ v)" by simp
  then show ?thesis unfolding str_includes_iff by blast
qed

lemma squeeze:
  assumes a: "x \<notin> set a" and b: "x \<notin> set b"
    and p: "p = x # p'" "p = p'' @ [x]"
    and inc: "str_includes (a @ s @ b) p"
  shows "str_includes s p"
proof -
  obtain u v where eq: "a @ (s @ b) = u @ (p @ v)"
    using inc by (auto simp: str_includes_iff)
  then obtain w where "a = u @ w \<and> w @ s @ b = p @ v \<or> a @ w = u \<and> s @ b = w @ p @ v"
    unfolding append_eq_append_conv2 by blast
  then have "\<exists>w. s @ b = w @ p @ v"
  proof
    assume h: "a = u @ w \<and> w @ s @ b = p @ v"
    show ?thesis
    proof (cases w)
      case Nil
      with h have "s @ b = [] @ p @ v" by simp
      then show ?thesis by blast
    next
      case (Cons y ys)
      with h p(1) have "y = x" by simp
      with h Cons a show ?thesis by simp
    qed
  next
    assume "a @ w = u \<and> s @ b = w @ p @ v"
    then show ?thesis by blast
  qed
  then obtain w where "s @ b = (w @ p) @ v" by auto
  then obtain z where "s = (w @ p) @ z \<and> z @ b = v \<or> s @ z = w @ p \<and> b = z @ v"
    unfolding append_eq_append_conv2 by blast
  then show ?thesis
  proof
    assume "s = (w @ p) @ z \<and> z @ b = v"
    then have "s = w @ p @ z" by simp
    then show ?thesis unfolding str_includes_iff by blast
  next
    assume h: "s @ z = w @ p \<and> b = z @ v"
    show ?thesis
    proof (cases z rule: rev_cases)
      case Nil
      with h have "s = w @ p @ []" by simp
      then show ?thesis unfolding str_includes_iff by blast
    next
      case (snoc zs y)
      with h p(2) have "s @ zs @ [y] = (w @ p'') @ [x]" by simp
      then have "y = x" by (metis append_assoc snoc_eq_iff_butlast)
      with h snoc b show ?thesis by simp
    qed
  qed
qed

lemma end_parts:
  "str_includes t (endSuccess n) \<Longrightarrow> str_includes t (endMarker n)"
  "str_includes t (endError n) \<Longrightarrow> str_includes t (endMarker n)"
  by (auto simp: str_includes_iff endSuccess_def endError_def)

lemma end_in_sentinel:
  assumes "m \<noteq> n"
  shows "\<not> str_includes (sentinel k m) (endMarker n)"
proof (cases k)
  case Start
  then show ?thesis
    using includes_set [of "startMarker m" "endMarker n"] N_in_end [of n] N_notin_start [of m]
    by auto
next
  case EndSuccess
  then show ?thesis
    using assms end_in_end [of "'':SUCCESS''" m n "[]"] by (auto simp: endSuccess_def)
next
  case EndError
  then show ?thesis
    using assms end_in_end [of "'':ERROR''" m n "[]"] by (auto simp: endError_def)
qed

lemma foreign_chunk_no_marker:
  assumes "foreign n x"
  shows "no_marker n (chunk_text x)"
proof -
  obtain a k m b where x: "x = (a, k, m, b)" by (cases x) auto
  with assms have mn: "m \<noteq> n" and a: "CHR ''-'' \<notin> set a" and b: "CHR ''-'' \<notin> set b"
    by auto
  have s: "\<not> str_includes (a @ sentinel k m @ b) (startMarker n)"
  proof
    assume h: "str_includes (a @ sentinel k m @ b) (startMarker n)"
    have "str_includes (sentinel k m) (startMarker n)"
      by (rule squeeze [OF a b _ _ h, of "''--START-'' @ show_nat n @ ''---''"
            "''---START-'' @ show_nat n @ ''--''"])
         (simp_all add: startMarker_def)
    then show False
      using foreign_sentinel_no_marker [OF mn, of k] by (simp add: no_marker_def)
  qed
  have e: "\<not> str_includes (a @ sentinel k m @ b) (endMarker n)"
  proof
    assume h: "str_includes (a @ sentinel k m @ b) (endMarker n)"
    have "str_includes (sentinel k m) (endMarker n)"
      by (rule squeeze [OF a b _ _ h, of "''--END-'' @ show_nat n @ ''---''"
            "''---END-'' @ show_nat n @ ''--''"])
         (simp_all add: endMarker_def)
    then show False
      using end_in_sentinel [OF mn] by simp
  qed
  show ?thesis
    using s e end_parts [of "a @ sentinel k m @ b" n] x by (auto simp: no_marker_def)
qed

lemma dataHandler_plain:
  "no_marker (cmdId e) t \<Longrightarrow>
     dataHandler sinfo e t = (if capturing e then e\<lparr>stdout := stdout e @ t\<rparr> else e)"
  by (simp add: dataHandler_def no_marker_def)

lemma exec_run_Cons: "exec_run sinfo e (ev # evs) = exec_run sinfo (exec_step sinfo e ev) evs"
  by (simp add: exec_run_def)

lemma exec_run_append:
  "exec_run sinfo e (evs @ evs') = exec_run sinfo (exec_run sinfo e evs) evs'"
  by (simp add: exec_run_def)

lemma foreign_chunks_run:
  assumes "\<forall>x \<in> set xs. foreign (cmdId e) x" and "listening e"
  shows "exec_run sinfo e (map (\<lambda>x. StdoutData (chunk_text x)) xs) =
     (if capturing e then e\<lparr>stdout := stdout e @ concat (map chunk_text xs)\<rparr> else e)"
  using assms
proof (induction xs arbitrary: e)
  case Nil
  then show ?case by (simp add: exec_run_def)
next
  case (Cons x xs)
  let ?e' = "if capturing e then e\<lparr>stdout := stdout e @ chunk_text x\<rparr> else e"
  have step: "exec_step sinfo e (StdoutData (chunk_text x)) = ?e'"
    using Cons.prems foreign_chunk_no_marker [of "cmdId e" x] by (simp add: dataHandler_plain)
  have "exec_run sinfo ?e' (map (\<lambda>x. StdoutData (chunk_text x)) xs) =
     (if capturing ?e' then ?e'\<lparr>stdout := stdout ?e' @ concat (map chunk_text xs)\<rparr> else ?e')"
    using Cons.prems by (intro Cons.IH) auto
  then show ?case
    by (simp add: exec_run_Cons step del: exec_step.simps)
qed

text \<open>
  Claim C2. While the execution with correlation id \<open>n\<close> is awaited, a sentinel of
  another id \<open>m \<noteq> n\<close> (a start marker, a success or an error end sentinel) contains
  none of the three sentinels of \<open>n\<close>. \<open>dataHandler\<close> begins or finalizes the capture only
  on a chunk in which a sentinel of \<open>n\<close> itself occurs: every other chunk, whatever
  sentinel-shaped text it holds, is handled as plain output (appended to \<open>stdout\<close> while
  capturing, ignored before). So after any number of chunks that hold a sentinel of
  another id between two texts without a hyphen, the promise and \<open>capturing\<close> are as they
  were.
\<close>

theorem foreign_sentinels_are_plain_output:
  "(m \<noteq> cmdId e \<longrightarrow> no_marker (cmdId e) (sentinel k m))
   \<and> (no_marker (cmdId e) text \<longrightarrow>
        dataHandler sinfo e text = (if capturing e then e\<lparr>stdout := stdout e @ text\<rparr> else e))
   \<and> ((\<forall>x \<in> set xs. foreign (cmdId e) x) \<and> listening e \<longrightarrow>
        exec_run sinfo e (map (\<lambda>x. StdoutData (chunk_text x)) xs) =
          (if capturing e then e\<lparr>stdout := stdout e @ concat (map chunk_text xs)\<rparr> else e))"
  using foreign_sentinel_no_marker [of m "cmdId e" k] dataHandler_plain [of e "text" sinfo]
    foreign_chunks_run [of xs e sinfo]
  by blast

text \<open>
  Claim C10. A chunk in which the start marker occurs is consumed whole by the first
  branch of \<open>dataHandler\<close>: \<open>capturing\<close> is set, \<open>stdout\<close> and \<open>stderr\<close> are reset to
  the empty string, and nothing of the chunk is kept. What precedes and what follows the
  marker inside the chunk is lost: the execution goes on, and resolves, exactly as if the
  chunk had been the marker alone.
\<close>

theorem start_chunk_consumed:
  "dataHandler sinfo e (a @ startMarker (cmdId e) @ b) = e\<lparr>capturing := True, stdout := [], stderr := []\<rparr>
   \<and> exec_run sinfo e (StdoutData (a @ startMarker (cmdId e) @ b) # evs)
     = exec_run sinfo e (StdoutData (startMarker (cmdId e)) # evs)"
proof -
  have 1: "str_includes (a @ startMarker (cmdId e) @ b) (startMarker (cmdId e))"
    by (rule includes_append)
  have 2: "str_includes (startMarker (cmdId e)) (startMarker (cmdId e))"
    using includes_append [of "[]" _ "[]"] by simp
  show ?thesis
    using 1 2 by (simp add: dataHandler_def exec_run_Cons)
qed

lemma plain_run:
  assumes "\<forall>ev \<in> set evs. plain (cmdId e) ev" and "listening e" and "capturing e"
  shows "exec_run sinfo e evs = e\<lparr>stdout := stdout e @ outs evs, stderr := stderr e @ errs evs\<rparr>"
  using assms
proof (induction evs arbitrary: e)
  case Nil
  then show ?case by (simp add: exec_run_def)
next
  case (Cons ev evs)
  show ?case
  proof (cases ev)
    case (StdoutData c)
    with Cons.prems have "exec_step sinfo e ev = e\<lparr>stdout := stdout e @ c\<rparr>"
      by (simp add: dataHandler_plain)
    moreover have "exec_run sinfo (e\<lparr>stdout := stdout e @ c\<rparr>) evs
        = (e\<lparr>stdout := stdout e @ c\<rparr>)\<lparr>stdout := stdout (e\<lparr>stdout := stdout e @ c\<rparr>) @ outs evs,
             stderr := stderr (e\<lparr>stdout := stdout e @ c\<rparr>) @ errs evs\<rparr>"
      using Cons.prems by (intro Cons.IH) auto
    ultimately show ?thesis
      using StdoutData by (simp add: exec_run_Cons del: exec_step.simps)
  next
    case (StderrData c)
    with Cons.prems have "exec_step sinfo e ev = e\<lparr>stderr := stderr e @ c\<rparr>"
      by (simp add: errorHandler_def)
    moreover have "exec_run sinfo (e\<lparr>stderr := stderr e @ c\<rparr>) evs
        = (e\<lparr>stderr := stderr e @ c\<rparr>)\<lparr>stdout := stdout (e\<lparr>stderr := stderr e @ c\<rparr>) @ outs evs,
             stderr := stderr (e\<lparr>stderr := stderr e @ c\<rparr>) @ errs evs\<rparr>"
      using Cons.prems by (intro Cons.IH) auto
    ultimately show ?thesis
      using StderrData by (simp add: exec_run_Cons del: exec_step.simps)
  next
    case TimerFired
    with Cons.prems show ?thesis by simp
  qed
qed

text \<open>
  What the framer does when every sentinel comes whole in a chunk of its own. When one
  chunk holds the start marker, a later chunk holds an end sentinel (and not the start
  marker), and no chunk in between holds a sentinel, the capture finalizes: \<open>stdout\<close> is
  the trimmed concatenation of the chunks in between (start markers that the
  concatenation forms are removed), \<open>stderr\<close> the trimmed error output in between, and
  the success flag tells which end sentinel came (success first).
\<close>

theorem per_chunk_framing:
  assumes "listening e" and "outcome e = None"
    and "str_includes sc (startMarker (cmdId e))"
    and "\<forall>ev \<in> set evs. plain (cmdId e) ev"
    and "\<not> str_includes ec (startMarker (cmdId e))"
    and "str_includes ec (endSuccess (cmdId e)) \<or> str_includes ec (endError (cmdId e))"
  shows "outcome (exec_run sinfo e (StdoutData sc # evs @ [StdoutData ec])) =
     Some (Inr \<lparr>res_stdout = trim (removeMarker (startMarker (cmdId e)) (outs evs)),
       res_stderr = trim (errs evs),
       res_success = str_includes ec (endSuccess (cmdId e)),
       res_sessionInfo = sinfo\<rparr>)"
proof -
  let ?e1 = "e\<lparr>capturing := True, stdout := [], stderr := []\<rparr>"
  have 1: "exec_step sinfo e (StdoutData sc) = ?e1"
    using assms(1,3) by (simp add: dataHandler_def)
  have 2: "exec_run sinfo ?e1 evs = ?e1\<lparr>stdout := outs evs, stderr := errs evs\<rparr>"
    using plain_run [of evs ?e1 sinfo] assms(1,4) by simp
  let ?e2 = "?e1\<lparr>stdout := outs evs, stderr := errs evs\<rparr>"
  have 3: "outcome (exec_step sinfo ?e2 (StdoutData ec)) =
     Some (Inr \<lparr>res_stdout = trim (removeMarker (startMarker (cmdId e)) (outs evs)),
       res_stderr = trim (errs evs),
       res_success = str_includes ec (endSuccess (cmdId e)),
       res_sessionInfo = sinfo\<rparr>)"
    using assms(1,2,5,6)
    by (auto simp: dataHandler_def finalize_def cleanup_def resolve_def Let_def)
  show ?thesis
    unfolding exec_run_Cons exec_run_append 1 2
    using 3 by (simp add: exec_run_def del: exec_step.simps)
qed

lemmas framing_eval = exec_run_def exec_init_def dataHandler_def errorHandler_def finalize_def
  cleanup_def resolve_def reject_def onTimeout_def startMarker_def endMarker_def endSuccess_def
  endError_def show_nat.simps digit_char_def trim_def isSpace_def no_marker_def Let_def

text \<open>
  Claim C1 at concrete streams. The output of a command that succeeded resolves with
  \<open>stdout = hi\<close> when it comes in three chunks, one for each line. The same output
  leaves the promise pending, until the timeout rejects it, when it comes in one chunk
  (the start branch returns before the end sentinel is looked at) or when the end
  sentinel is cut in two (no chunk holds it). And when the output shares its chunk with
  the end sentinel, the promise resolves with an empty \<open>stdout\<close>: the output is lost.
\<close>

theorem fragmentation_counterexample:
  "concat [''---START-1---'' @ [CHR 0x0A], ''hi'' @ [CHR 0x0A], ''---END-1---:SUCCESS'' @ [CHR 0x0A]]
     = concat [''---START-1---'' @ [CHR 0x0A] @ ''hi'' @ [CHR 0x0A] @ ''---END-1---:SUCCESS'' @ [CHR 0x0A]]
   \<and> outcome (exec_run example_info (exec_init 1 30000)
        [StdoutData (''---START-1---'' @ [CHR 0x0A]), StdoutData (''hi'' @ [CHR 0x0A]),
         StdoutData (''---END-1---:SUCCESS'' @ [CHR 0x0A])])
     = Some (Inr \<lparr>res_stdout = ''hi'', res_stderr = [], res_success = True,
          res_sessionInfo = example_info\<rparr>)
   \<and> outcome (exec_run example_info (exec_init 1 30000)
        [StdoutData (''---START-1---'' @ [CHR 0x0A] @ ''hi'' @ [CHR 0x0A] @ ''---END-1---:SUCCESS'' @ [CHR 0x0A])])
     = None
   \<and> outcome (exec_run example_info (exec_init 1 30000)
        [StdoutData (''---START-1---'' @ [CHR 0x0A] @ ''hi'' @ [CHR 0x0A] @ ''---END-1---:SUCCESS'' @ [CHR 0x0A]),
         TimerFired])
     = Some (Inl (Error ''Command timed out after 30000ms''))
   \<and> outcome (exec_run example_info (exec_init 1 30000)
        [StdoutData (''---START-1---'' @ [CHR 0x0A]), StdoutData (''hi'' @ [CHR 0x0A]),
         StdoutData ''---END-1-'', StdoutData (''--:SUCCESS'' @ [CHR 0x0A])])
     = None
   \<and> outcome (exec_run example_info (exec_init 1 30000)
        [StdoutData (''---START-1---'' @ [CHR 0x0A]),
         StdoutData (''hi'' @ [CHR 0x0A] @ ''---END-1---:SUCCESS'' @ [CHR 0x0A])])
     = Some (Inr \<lparr>res_stdout = [], res_stderr = [], res_success = True,
          res_sessionInfo = example_info\<rparr>)"
  by (simp add: framing_eval timeoutMessage_def show_int_def)

theorem per_chunk_framing_witness:
  "listening (exec_init 1 30000) \<and> outcome (exec_init 1 30000) = None
   \<and> str_includes (''---START-1---'' @ [CHR 0x0A]) (startMarker (cmdId (exec_init 1 30000)))
   \<and> plain (cmdId (exec_init 1 30000)) (StdoutData ''h'')
   \<and> plain (cmdId (exec_init 1 30000)) (StderrData ''warn'')
   \<and> plain (cmdId (exec_init 1 30000)) (StdoutData (''i'' @ [CHR 0x0A]))
   \<and> \<not> str_includes (''---END-1---:ERROR'' @ [CHR 0x0A]) (startMarker (cmdId (exec_init 1 30000)))
   \<and> (str_includes (''---END-1---:ERROR'' @ [CHR 0x0A]) (endSuccess (cmdId (exec_init 1 30000)))
       \<or> str_includes (''---END-1---:ERROR'' @ [CHR 0x0A]) (endError (cmdId (exec_init 1 30000))))
   \<and> outcome (exec_run example_info (exec_init 1 30000)
        (StdoutData (''---START-1---'' @ [CHR 0x0A])
          # [StdoutData ''h'', StderrData ''warn'', StdoutData (''i'' @ [CHR 0x0A])]
          @ [StdoutData (''---END-1---:ERROR'' @ [CHR 0x0A])]))
     = Some (Inr \<lparr>res_stdout = ''hi'', res_stderr = ''warn'', res_success = False,
          res_sessionInfo = example_info\<rparr>)"
  using per_chunk_framing [of "exec_init 1 30000" "''---START-1---'' @ [CHR 0x0A]"
      "[StdoutData ''h'', StderrData ''warn'', StdoutData (''i'' @ [CHR 0x0A])]"
      "''---END-1---:ERROR'' @ [CHR 0x0A]" example_info]
  by (simp add: framing_eval)

theorem foreign_sentinels_witness:
  "2 \<noteq> cmdId ((exec_init 1 30000)\<lparr>capturing := True\<rparr>)
   \<and> no_marker (cmdId ((exec_init 1 30000)\<lparr>capturing := True\<rparr>)) (sentinel EndSuccess 2)
   \<and> no_marker (cmdId ((exec_init 1 30000)\<lparr>capturing := True\<rparr>)) ''--- ---END-12---:ERROR---''
   \<and> dataHandler example_info ((exec_init 1 30000)\<lparr>capturing := True\<rparr>) ''--- ---END-12---:ERROR---''
     = (exec_init 1 30000)\<lparr>capturing := True, stdout := ''--- ---END-12---:ERROR---''\<rparr>
   \<and> foreign (cmdId ((exec_init 1 30000)\<lparr>capturing := True\<rparr>)) (''a'', EndSuccess, 2, [CHR 0x0A])
   \<and> foreign (cmdId ((exec_init 1 30000)\<lparr>capturing := True\<rparr>)) ([], Start, 11, [])
   \<and> listening ((exec_init 1 30000)\<lparr>capturing := True\<rparr>)
   \<and> exec_run example_info ((exec_init 1 30000)\<lparr>capturing := True\<rparr>)
        [StdoutData (''a---END-2---:SUCCESS'' @ [CHR 0x0A]), StdoutData ''---START-11---'']
     = (exec_init 1 30000)\<lparr>capturing := True,
          stdout := ''a---END-2---:SUCCESS'' @ [CHR 0x0A] @ ''---START-11---''\<rparr>"
  using foreign_sentinels_are_plain_output [of 2 "(exec_init 1 30000)\<lparr>capturing := True\<rparr>"
      EndSuccess "''--- ---END-12---:ERROR---''" example_info
      "[(''a'', EndSuccess, 2, [CHR 0x0A]), ([], Start, 11, [])]"]
  by (simp add: framing_eval)

section \<open>Properties of the session registry\<close>

subsection \<open>closeSession\<close>

lemma sessions_get_delete: "sessions_get (sessions_delete nm m) nm = None"
  by (simp add: sessions_get_def sessions_delete_def delete_conv')

lemma finishClose_unregisters: "sessions_get (fst (finishClose nm iref m)) nm = None"
  by (simp add: finishClose_def emit_def sessions_get_def sessions_delete_def delete_conv')

lemma finishClose_done: "snd (finishClose nm iref m) = Some (Inr ())"
  by (simp add: finishClose_def)

lemma closeSession_absent: "sessions_get m nm = None \<Longrightarrow> closeSession m nm evs = (m, Some (Inr ()))"
  by (simp add: closeSession_def)

lemma closeSession_result:
  "snd (closeSession m nm evs) = None \<or> snd (closeSession m nm evs) = Some (Inr ())"
  by (auto simp: closeSession_def closeRemote_def finishClose_def
      split: option.splits prod.splits)

lemma closeSession_unregisters:
  assumes "snd (closeSession m nm evs) = Some (Inr ())"
  shows "sessions_get (fst (closeSession m nm evs)) nm = None"
proof (cases "sessions_get m nm")
  case None
  then show ?thesis by (simp add: closeSession_absent)
next
  case (Some sref)
  then show ?thesis
    using assms
    by (auto simp: closeSession_def closeRemote_def finishClose_unregisters
        split: option.splits prod.splits if_splits)
qed

subsection \<open>createSession\<close>

lemmas mgr_defs = emit_def write_stdin_def kill_def set_state_def set_runspaceId_def
  set_connected_def sessions_set_def sessions_delete_def

lemma cinv_step: "cinv S mc \<Longrightarrow> cinv S (creation_step mc ev)"
  by (cases mc; cases ev)
     (auto simp: cinv_def mgr_defs c_resolve_def c_reject_def initTest_def Let_def
       split: prod.splits)

lemma cinv_run: "cinv S mc \<Longrightarrow> cinv S (creation_run mc evs)"
  unfolding creation_run_def
  by (induction evs arbitrary: mc) (auto simp: cinv_step)

lemma reject_step_sessions:
  assumes "creation_step (m1, c1) ev = (m2, c2)" and "c_promise c1 = None"
    and "c_promise c2 = Some (Inl err)"
  shows "sessions m2 = sessions m1"
  using assms
  by (cases ev)
     (auto simp: mgr_defs c_resolve_def c_reject_def initTest_def Let_def
       split: prod.splits if_splits)

lemma createSession_local_start:
  assumes "createSession m nm opts now sidv rid = (m0, Inr (Creating c0))"
  shows "sessions m0 = sessions m \<and> \<not> initialized c0 \<and> c_promise c0 = None \<and> \<not> sessions_has m nm"
  using assms
  by (auto simp: createSession_def createLocalSession_def createRemoteSession_def spawn_def
      new_Date_def Let_def split: if_splits prod.splits)

text \<open>
  What holds of \<open>createSession\<close> when it fails. For a name that is registered it
  rejects with the error \<open>Session 'name' already exists\<close> and the manager (the registry,
  every session record, every subprocess) is as before. A local creation that rejects (the
  subprocess reported an error, or the initialization timed out) has not touched the
  registry at the moment it rejects: the registry is the one before the call and the name
  is not registered. A remote creation cannot fail once the name is free.
\<close>

theorem createSession_duplicate_and_failure:
  "(sessions_has m nm \<longrightarrow>
      createSession m nm opts now sidv rid
        = (m, Inl (Error (''Session '' @ quoted nm @ '' already exists''))))
   \<and> (createSession m nm opts now sidv rid = (m0, Inr (Creating c0)) \<longrightarrow>
      creation_run (m0, c0) evs = (m1, c1) \<longrightarrow> c_promise c1 = None \<longrightarrow>
      creation_step (m1, c1) ev = (m2, c2) \<longrightarrow> c_promise c2 = Some (Inl err) \<longrightarrow>
      sessions m2 = sessions m \<and> \<not> sessions_has m2 nm)"
proof (intro conjI impI)
  assume "sessions_has m nm"
  then show "createSession m nm opts now sidv rid
      = (m, Inl (Error (''Session '' @ quoted nm @ '' already exists'')))"
    by (simp add: createSession_def)
next
  assume start: "createSession m nm opts now sidv rid = (m0, Inr (Creating c0))"
    and run: "creation_run (m0, c0) evs = (m1, c1)" and pend: "c_promise c1 = None"
    and step: "creation_step (m1, c1) ev = (m2, c2)" and rej: "c_promise c2 = Some (Inl err)"
  have s0: "sessions m0 = sessions m" "\<not> initialized c0" "c_promise c0 = None" "\<not> sessions_has m nm"
    using createSession_local_start [OF start] by auto
  have "cinv (sessions m0) (m0, c0)" using s0 by (simp add: cinv_def)
  then have "cinv (sessions m0) (m1, c1)" using cinv_run [of "sessions m0" "(m0, c0)" evs] run by simp
  with pend have "sessions m1 = sessions m0" by (auto simp: cinv_def)
  moreover have "sessions m2 = sessions m1" using reject_step_sessions [OF step pend rej] .
  ultimately have eq: "sessions m2 = sessions m" using s0 by simp
  then show "sessions m2 = sessions m" .
  show "\<not> sessions_has m2 nm" using eq s0(4) by (simp add: sessions_has_def)
qed

subsection \<open>executeInRemoteSession\<close>

lemma remote_settled_stays:
  "r_promise r \<noteq> None \<Longrightarrow> r_promise (snd (remote_step (m, r) ev)) = r_promise r"
  by (cases ev) (auto simp: r_resolve_def r_reject_def)

lemma remote_run_snoc: "remote_run mr (evs @ [ev]) = remote_step (remote_run mr evs) ev"
  by (simp add: remote_run_def)

lemma remote_close_resolves:
  assumes "r_promise r = None"
  shows "r_promise (snd (remote_step (m, r) (ChildClose code)))
     = Some (Inr \<lparr>res_stdout = trim (r_stdout r), res_stderr = trim (r_stderr r),
          res_success = (code = Some 0),
          res_sessionInfo = infos m (info (sessionObjs m (r_session r)))\<rparr>)"
  using assms by (simp add: r_resolve_def)

lemma remote_resolved_by_close:
  assumes "r_promise r = None"
    and "r_promise (snd (remote_step (m, r) ev)) = Some (Inr res)"
  shows "\<exists>code. ev = ChildClose code \<and> res_success res = (code = Some 0)"
  using assms by (cases ev) (auto simp: r_resolve_def r_reject_def split: if_splits)

lemma remote_resolution_origin:
  assumes "r_promise (snd mr) = None"
    and "r_promise (snd (remote_run mr evs)) = Some (Inr res)"
  shows "\<exists>pre code post. evs = pre @ ChildClose code # post
      \<and> r_promise (snd (remote_run mr pre)) = None
      \<and> res_success res = (code = Some 0)"
  using assms(2)
proof (induction evs rule: rev_induct)
  case Nil
  with assms(1) show ?case by (simp add: remote_run_def)
next
  case (snoc ev evs)
  obtain m1 r1 where mr1: "remote_run mr evs = (m1, r1)" by (cases "remote_run mr evs")
  show ?case
  proof (cases "r_promise r1 = None")
    case True
    from snoc.prems mr1 have "r_promise (snd (remote_step (m1, r1) ev)) = Some (Inr res)"
      by (simp add: remote_run_snoc)
    then obtain code where "ev = ChildClose code" "res_success res = (code = Some 0)"
      using remote_resolved_by_close [OF True] by blast
    then have "evs @ [ev] = evs @ ChildClose code # [] \<and> r_promise (snd (remote_run mr evs)) = None
        \<and> res_success res = (code = Some 0)"
      using True mr1 by simp
    then show ?thesis by blast
  next
    case False
    then have "r_promise (snd (remote_step (m1, r1) ev)) = r_promise r1"
      by (rule remote_settled_stays)
    with snoc.prems mr1 have "r_promise (snd (remote_run mr evs)) = Some (Inr res)"
      by (simp add: remote_run_snoc)
    then obtain pre code post where "evs = pre @ ChildClose code # post"
        "r_promise (snd (remote_run mr pre)) = None" "res_success res = (code = Some 0)"
      using snoc.IH by blast
    then have "evs @ [ev] = pre @ ChildClose code # (post @ [ev])
        \<and> r_promise (snd (remote_run mr pre)) = None \<and> res_success res = (code = Some 0)"
      by simp
    then show ?thesis by blast
  qed
qed

text \<open>
  Claim C7. While the promise of a remote execution is pending, the \<open>close\<close> event of the
  bridging subprocess resolves it with \<open>success = (code = 0)\<close>, whatever was captured on
  the error stream; and a remote execution resolves in no other way: every result it
  resolves with comes from the \<open>close\<close> event that found the promise pending, and its
  success flag says whether that exit code was 0.
\<close>

theorem remote_success_is_exit_code_zero:
  "(r_promise (snd (remote_run (executeInRemoteSession m sref command t) evs)) = None \<longrightarrow>
      (\<exists>res. r_promise (snd (remote_step
                 (remote_run (executeInRemoteSession m sref command t) evs) (ChildClose code)))
               = Some (Inr res) \<and> res_success res = (code = Some 0)))
   \<and> (r_promise (snd (remote_run (executeInRemoteSession m sref command t) evs)) = Some (Inr res') \<longrightarrow>
      (\<exists>pre code' post. evs = pre @ ChildClose code' # post
         \<and> r_promise (snd (remote_run (executeInRemoteSession m sref command t) pre)) = None
         \<and> res_success res' = (code' = Some 0)))"
proof (intro conjI impI)
  assume p: "r_promise (snd (remote_run (executeInRemoteSession m sref command t) evs)) = None"
  obtain m1 r1 where mr: "remote_run (executeInRemoteSession m sref command t) evs = (m1, r1)"
    by (cases "remote_run (executeInRemoteSession m sref command t) evs")
  with p have "r_promise r1 = None" by simp
  then show "\<exists>res. r_promise (snd (remote_step
                 (remote_run (executeInRemoteSession m sref command t) evs) (ChildClose code)))
               = Some (Inr res) \<and> res_success res = (code = Some 0)"
    unfolding mr using remote_close_resolves [of r1 m1 code] by simp
next
  assume "r_promise (snd (remote_run (executeInRemoteSession m sref command t) evs)) = Some (Inr res')"
  moreover have "r_promise (snd (executeInRemoteSession m sref command t)) = None"
    by (simp add: executeInRemoteSession_def spawn_def)
  ultimately show "\<exists>pre code' post. evs = pre @ ChildClose code' # post
         \<and> r_promise (snd (remote_run (executeInRemoteSession m sref command t) pre)) = None
         \<and> res_success res' = (code' = Some 0)"
    by (rule remote_resolution_origin [rotated])
qed

subsection \<open>closeSession resolves\<close>

lemma remote_settled_run:
  "r_promise r \<noteq> None \<Longrightarrow> r_promise (snd (remote_run (m, r) evs)) = r_promise r"
proof (induction evs arbitrary: m r)
  case Nil
  then show ?case by (simp add: remote_run_def)
next
  case (Cons ev evs)
  obtain m' r' where s: "remote_step (m, r) ev = (m', r')" by (cases "remote_step (m, r) ev")
  have "r_promise r' = r_promise r"
    using remote_settled_stays [OF Cons.prems, of m ev] s by simp
  then show ?case
    using Cons.IH [of r' m'] Cons.prems s by (simp add: remote_run_def)
qed

lemma remote_terminal_settles:
  assumes "r_promise r = None \<longrightarrow> r_timer r" and "terminal t ev" and "0 < t"
  shows "r_promise (snd (remote_step (m, r) ev)) \<noteq> None"
  using assms by (cases ev) (auto simp: r_resolve_def r_reject_def)

lemma remote_timer_kept:
  assumes "r_promise r = None \<longrightarrow> r_timer r"
  shows "r_promise (snd (remote_step (m, r) ev)) = None \<longrightarrow> r_timer (snd (remote_step (m, r) ev))"
  using assms by (cases ev) (auto simp: r_resolve_def r_reject_def)

lemma remote_settles:
  assumes "settling t evs" and "0 < t" and "r_promise r = None \<longrightarrow> r_timer r"
  shows "r_promise (snd (remote_run (m, r) evs)) \<noteq> None"
  using assms
proof (induction evs arbitrary: m r)
  case Nil
  then show ?case by (simp add: settling_def)
next
  case (Cons ev evs)
  obtain m' r' where s: "remote_step (m, r) ev = (m', r')" by (cases "remote_step (m, r) ev")
  have run: "remote_run (m, r) (ev # evs) = remote_run (m', r') evs"
    using s by (simp add: remote_run_def)
  show ?case
  proof (cases "terminal t ev")
    case True
    then have "r_promise r' \<noteq> None"
      using remote_terminal_settles [OF Cons.prems(3) True Cons.prems(2), of m] s by simp
    then show ?thesis using remote_settled_run [of r' m' evs] run by simp
  next
    case False
    with Cons.prems(1) have "settling t evs" by (simp add: settling_def)
    moreover have "r_promise r' = None \<longrightarrow> r_timer r'"
      using remote_timer_kept [OF Cons.prems(3), of m ev] s by simp
    ultimately show ?thesis using Cons.IH [of r' m'] Cons.prems(2) run by simp
  qed
qed

lemma closeRemote_completes:
  assumes "settling 5000 evs"
  shows "snd (closeRemote m nm sref evs) = Some (Inr ())"
proof -
  let ?c = "''Remove-PSSession -Name '' @ quoted nm @ '' -ErrorAction SilentlyContinue''"
  obtain m0 r0 where e: "executeInRemoteSession m sref ?c 5000 = (m0, r0)"
    by (cases "executeInRemoteSession m sref ?c 5000")
  then have "r_timer r0" by (auto simp: executeInRemoteSession_def spawn_def)
  then have settled: "r_promise (snd (remote_run (m0, r0) evs)) \<noteq> None"
    using remote_settles [OF assms, of r0 m0] by simp
  obtain m1 r1 where r: "remote_run (m0, r0) evs = (m1, r1)" by (cases "remote_run (m0, r0) evs")
  with settled have "r_promise r1 \<noteq> None" by simp
  then show ?thesis
    unfolding closeRemote_def e r by (simp add: finishClose_def)
qed

lemma closeSession_completes:
  assumes "settling 5000 evs"
  shows "snd (closeSession m nm evs) = Some (Inr ())"
  using closeRemote_completes [OF assms]
  by (simp add: closeSession_def finishClose_def split: option.splits)

text \<open>
  Claim C6. Closing a name that is not registered resolves without an error and leaves
  the manager as it is. \<open>closeSession\<close> never rejects, and it resolves: at once for a
  local session, and for a remote one when the bridging execution of the clean-up has
  settled, which it has once its subprocess closed or failed or its 5000 ms elapsed. When
  a call has resolved, the name is no longer registered, so a second call on the same
  name resolves as well and changes nothing.
\<close>

theorem closeSession_idempotent:
  "(\<not> sessions_has m nm \<longrightarrow> closeSession m nm evs = (m, Some (Inr ())))
   \<and> snd (closeSession m nm evs) \<noteq> Some (Inl err)
   \<and> (settling 5000 evs \<longrightarrow> snd (closeSession m nm evs) = Some (Inr ()))
   \<and> (snd (closeSession m nm evs) = Some (Inr ()) \<longrightarrow>
        closeSession (fst (closeSession m nm evs)) nm evs'
          = (fst (closeSession m nm evs), Some (Inr ())))"
proof (intro conjI impI)
  assume "\<not> sessions_has m nm"
  then show "closeSession m nm evs = (m, Some (Inr ()))"
    by (simp add: sessions_has_def sessions_get_def closeSession_def)
next
  show "snd (closeSession m nm evs) \<noteq> Some (Inl err)"
    using closeSession_result [of m nm evs] by auto
next
  assume "settling 5000 evs"
  then show "snd (closeSession m nm evs) = Some (Inr ())"
    by (rule closeSession_completes)
next
  assume "snd (closeSession m nm evs) = Some (Inr ())"
  then have "sessions_get (fst (closeSession m nm evs)) nm = None"
    by (rule closeSession_unregisters)
  then show "closeSession (fst (closeSession m nm evs)) nm evs'
      = (fst (closeSession m nm evs), Some (Inr ()))"
    by (rule closeSession_absent)
qed

subsection \<open>The timeout of a local execution\<close>

lemma einv_step: "einv e \<Longrightarrow> einv (exec_step sinfo e ev)"
  by (cases ev)
     (auto simp: einv_def dataHandler_def errorHandler_def finalize_def cleanup_def resolve_def
       reject_def onTimeout_def Let_def)

lemma local_run_frame:
  "einv e \<Longrightarrow> \<exists>e'. local_run (m, sref, e) evs = (m, sref, e') \<and> einv e' \<and> cmdId e' = cmdId e
     \<and> timeout_ms e' = timeout_ms e"
proof (induction evs arbitrary: e)
  case Nil
  then show ?case by (simp add: local_run_def)
next
  case (Cons ev evs)
  let ?e1 = "exec_step (infos m (info (sessionObjs m sref))) e ev"
  have 1: "einv ?e1" using Cons.prems by (rule einv_step)
  have 2: "cmdId ?e1 = cmdId e \<and> timeout_ms ?e1 = timeout_ms e"
    by (cases ev)
       (auto simp: dataHandler_def errorHandler_def finalize_def cleanup_def resolve_def
         reject_def onTimeout_def Let_def)
  have "local_run (m, sref, e) (ev # evs) = local_run (m, sref, ?e1) evs"
    by (simp add: local_run_def local_step_def)
  then show ?case using Cons.IH [OF 1] 2 by auto
qed

lemma executeInSession_local_dispatch:
  assumes "executeInSession m nm command timeout now = (m1, Inr (LocalExec sref e0))"
    and "outcome e0 = None"
  shows "sessions_get m nm = Some sref \<and> sessions m1 = sessions m \<and> sessionObjs m1 = sessionObjs m
     \<and> isLocal (infos m1 (info (sessionObjs m1 sref)))
     \<and> process (sessionObjs m sref) \<noteq> None \<and> connected (sessionObjs m sref)
     \<and> commandId m1 = Suc (commandId m)
     \<and> e0 = exec_init (commandId m1) (case timeout of None \<Rightarrow> 30000 | Some v \<Rightarrow> v)"
  using assms
  by (auto simp: executeInSession_def executeInLocalSession_def executeInRemoteSession_def
      new_Date_def write_stdin_def spawn_def exec_init_def sessions_get_def Let_def
      split: option.splits if_splits prod.splits)

lemma executeInSession_dispatches:
  assumes "sessions_get m nm = Some sref" and "isLocal (infos m (info (sessionObjs m sref)))"
    and "process (sessionObjs m sref) = Some h" and "connected (sessionObjs m sref)"
  shows "snd (executeInSession m nm command timeout now)
       = Inr (LocalExec sref (exec_init (Suc (commandId m)) (case timeout of None \<Rightarrow> 30000 | Some v \<Rightarrow> v)))
     \<and> stdin (children (fst (executeInSession m nm command timeout now)) h)
       = stdin (children m h) @ [wrappedCommand (Suc (commandId m)) command @ [CHR 0x0A]]
     \<and> signals (children (fst (executeInSession m nm command timeout now)) h) = signals (children m h)"
  using assms
  by (auto simp: executeInSession_def executeInLocalSession_def new_Date_def write_stdin_def
      Let_def split: option.splits prod.splits)

text \<open>
  Claim C3. A local execution was dispatched on session \<open>nm\<close> and is still pending after
  the events \<open>evs\<close>. When its timer fires, the promise rejects with
  \<open>Command timed out after t ms\<close>, both handlers are detached, and the manager is the one
  that the dispatch left: the registry entry, the session record with its \<open>connected\<close>
  flag and its subprocess handle, and the subprocess (no signal is sent) are unchanged. A
  further \<open>executeInSession\<close> on the same name is dispatched: the next correlation id is
  taken, the wrapped command is written to the same subprocess, and no signal is sent.
\<close>

theorem local_timeout_keeps_session:
  assumes start: "executeInSession m nm command timeout now = (m1, Inr (LocalExec sref e0))"
    and disp: "outcome e0 = None"
    and run: "local_run (m1, sref, e0) evs = (m2, sref2, e1)"
    and pending: "outcome e1 = None"
    and h: "process (sessionObjs m1 sref) = Some h"
  shows "local_step (m2, sref2, e1) TimerFired
       = (m1, sref, e1\<lparr>completed := True, timeoutId := False, listening := False,
            outcome := Some (Inl (Error (timeoutMessage (timeout_ms e0))))\<rparr>)
     \<and> m2 = m1 \<and> sessions_get m1 nm = Some sref \<and> connected (sessionObjs m1 sref)
     \<and> snd (executeInSession m1 nm command' timeout' now')
       = Inr (LocalExec sref (exec_init (Suc (cmdId e0)) (case timeout' of None \<Rightarrow> 30000 | Some v \<Rightarrow> v)))
     \<and> stdin (children (fst (executeInSession m1 nm command' timeout' now')) h)
       = stdin (children m1 h) @ [wrappedCommand (Suc (cmdId e0)) command' @ [CHR 0x0A]]
     \<and> signals (children (fst (executeInSession m1 nm command' timeout' now')) h)
       = signals (children m1 h)"
proof -
  have d: "sessions_get m nm = Some sref" "sessions m1 = sessions m" "sessionObjs m1 = sessionObjs m"
      "isLocal (infos m1 (info (sessionObjs m1 sref)))" "connected (sessionObjs m sref)"
      "e0 = exec_init (commandId m1) (case timeout of None \<Rightarrow> 30000 | Some v \<Rightarrow> v)"
    using executeInSession_local_dispatch [OF start disp] by auto
  have "einv e0" using d(6) by (simp add: einv_def exec_init_def)
  then obtain e' where e': "local_run (m1, sref, e0) evs = (m1, sref, e')" "einv e'"
      "timeout_ms e' = timeout_ms e0"
    using local_run_frame [of e0 m1 sref evs] by auto
  with run have eq: "m2 = m1" "sref2 = sref" "e1 = e'" by auto
  have armed: "timeoutId e1" "\<not> completed e1" "listening e1"
    using e'(2) pending eq by (auto simp: einv_def)
  have 1: "local_step (m2, sref2, e1) TimerFired
       = (m1, sref, e1\<lparr>completed := True, timeoutId := False, listening := False,
            outcome := Some (Inl (Error (timeoutMessage (timeout_ms e0))))\<rparr>)"
    using armed pending eq e'(3)
    by (simp add: local_step_def onTimeout_def cleanup_def reject_def)
  have g: "sessions_get m1 nm = Some sref" using d by (simp add: sessions_get_def)
  have c: "connected (sessionObjs m1 sref)" using d by simp
  have n: "cmdId e0 = commandId m1" using d(6) by (simp add: exec_init_def)
  show ?thesis
    using 1 eq(1) g c executeInSession_dispatches [OF g d(4) h c, of command' timeout' now']
    by (simp add: n)
qed

lemmas example_defs = example_mgr_def example_info_def no_options_def empty_manager_def
  example_remote_options_def example_remote_mgr_def

lemmas manager_eval = executeInSession_def executeInLocalSession_def executeInRemoteSession_def
  createSession_def createRemoteSession_def createLocalSession_def closeSession_def
  closeRemote_def finishClose_def new_Date_def spawn_def sessions_get_def sessions_has_def
  truthy_def quoted_def getSession_def listSessions_def local_run_def local_step_def
  remote_run_def creation_run_def mgr_defs c_resolve_def c_reject_def r_resolve_def r_reject_def
  initTest_def wrappedCommand_def timeoutMessage_def show_int_def

text \<open>
  Claim C4 at a concrete registry. \<open>getSession\<close> returns the reference that the registry
  holds for session \<open>db\<close> (object 3), not a copy: after the caller writes
  \<open>state = Failed\<close> through it, the registry reports the session as \<open>Failed\<close>.
\<close>

theorem getSession_returns_live_reference:
  "getSession example_remote_mgr ''db'' = Some 3
   \<and> map state (listSessions example_remote_mgr) = [Connected]
   \<and> map state (listSessions (set_state 3 Failed example_remote_mgr)) = [Failed]"
  by (simp add: example_defs manager_eval Let_def)

theorem closeSession_idempotent_witness:
  "\<not> sessions_has example_mgr ''gone''
   \<and> closeSession example_mgr ''gone'' [] = (example_mgr, Some (Inr ()))
   \<and> snd (closeSession example_mgr ''work'' []) = Some (Inr ())
   \<and> closeSession (fst (closeSession example_mgr ''work'' [])) ''work'' []
       = (fst (closeSession example_mgr ''work'' []), Some (Inr ()))
   \<and> settling 5000 [ChildStderr ''x'', TimeoutElapsed]
   \<and> snd (closeSession example_remote_mgr ''db'' [ChildStderr ''x'', TimeoutElapsed]) = Some (Inr ())
   \<and> closeSession (fst (closeSession example_remote_mgr ''db'' [ChildStderr ''x'', TimeoutElapsed]))
         ''db'' []
       = (fst (closeSession example_remote_mgr ''db'' [ChildStderr ''x'', TimeoutElapsed]), Some (Inr ()))"
proof -
  have "\<not> sessions_has example_mgr ''gone''"
    by (simp add: example_defs sessions_has_def)
  moreover have "snd (closeSession example_mgr ''work'' []) = Some (Inr ())"
    by (simp add: example_defs manager_eval)
  moreover have "settling 5000 [ChildStderr ''x'', TimeoutElapsed]"
    by (simp add: settling_def)
  ultimately show ?thesis
    using closeSession_idempotent [of example_mgr "''gone''" "[]" undefined "[]"]
      closeSession_idempotent [of example_mgr "''work''" "[]" undefined "[]"]
      closeSession_idempotent [of example_remote_mgr "''db''"
        "[ChildStderr ''x'', TimeoutElapsed]" undefined "[]"]
    by simp
qed

theorem local_timeout_keeps_session_witness:
  "executeInSession example_mgr ''work'' ''Start-Sleep -Seconds 3'' (Some 500) 9
     = (example_started, Inr (LocalExec 4 (exec_init 1 500)))
   \<and> outcome (exec_init 1 500) = None
   \<and> local_run (example_started, 4, exec_init 1 500) [StdoutData (''---START-1---'' @ [CHR 0x0A])]
     = (example_started, 4, (exec_init 1 500)\<lparr>capturing := True\<rparr>)
   \<and> outcome ((exec_init 1 500)\<lparr>capturing := True\<rparr>) = None
   \<and> process (sessionObjs example_started 4) = Some 0
   \<and> local_step (example_started, 4, (exec_init 1 500)\<lparr>capturing := True\<rparr>) TimerFired
     = (example_started, 4, (exec_init 1 500)\<lparr>capturing := True, completed := True,
          timeoutId := False, listening := False,
          outcome := Some (Inl (Error ''Command timed out after 500ms''))\<rparr>)
   \<and> sessions_get example_started ''work'' = Some 4
   \<and> connected (sessionObjs example_started 4)
   \<and> snd (executeInSession example_started ''work'' ''Get-Date'' None 10)
     = Inr (LocalExec 4 (exec_init 2 30000))
   \<and> stdin (children (fst (executeInSession example_started ''work'' ''Get-Date'' None 10)) 0)
     = stdin (children example_started 0) @ [wrappedCommand 2 ''Get-Date'' @ [CHR 0x0A]]
   \<and> signals (children (fst (executeInSession example_started ''work'' ''Get-Date'' None 10)) 0) = []"
  using local_timeout_keeps_session [of example_mgr "''work''" "''Start-Sleep -Seconds 3''"
      "Some 500" 9 example_started 4 "exec_init 1 500"
      "[StdoutData (''---START-1---'' @ [CHR 0x0A])]" example_started 4
      "(exec_init 1 500)\<lparr>capturing := True\<rparr>" 0 "''Get-Date''" None 10]
  by (simp add: example_started_def example_defs manager_eval framing_eval)

theorem createSession_duplicate_and_failure_witness:
  "sessions_has example_mgr ''work''
   \<and> createSession example_mgr ''work'' no_options 9 ''ps-session-9'' ''runspace-9''
     = (example_mgr, Inl (Error (''Session '' @ [CHR 0x27] @ ''work'' @ [CHR 0x27] @ '' already exists'')))
   \<and> createSession empty_manager ''work'' no_options 0 ''ps-session-1'' ''runspace-1''
     = (fst example_creating, Inr (Creating (snd example_creating)))
   \<and> c_promise (snd (creation_run example_creating [StartTimerFired, IntervalTick])) = None
   \<and> c_promise (snd (creation_step (creation_run example_creating [StartTimerFired, IntervalTick])
        InitTimeoutFired))
     = Some (Inl (Error ''Local PowerShell session initialization timed out''))
   \<and> sessions (fst (creation_step (creation_run example_creating [StartTimerFired, IntervalTick])
        InitTimeoutFired)) = sessions empty_manager
   \<and> \<not> sessions_has (fst (creation_step (creation_run example_creating [StartTimerFired, IntervalTick])
        InitTimeoutFired)) ''work''"
  using createSession_duplicate_and_failure [of example_mgr "''work''" no_options 9
      "''ps-session-9''" "''runspace-9''"]
    createSession_duplicate_and_failure [of empty_manager "''work''" no_options 0
      "''ps-session-1''" "''runspace-1''" "fst example_creating" "snd example_creating"
      "[StartTimerFired, IntervalTick]"
      "fst (creation_run example_creating [StartTimerFired, IntervalTick])"
      "snd (creation_run example_creating [StartTimerFired, IntervalTick])"
      InitTimeoutFired
      "fst (creation_step (creation_run example_creating [StartTimerFired, IntervalTick]) InitTimeoutFired)"
      "snd (creation_step (creation_run example_creating [StartTimerFired, IntervalTick]) InitTimeoutFired)"
      "Error ''Local PowerShell session initialization timed out''"]
  by (simp add: example_creating_def example_creation_def example_defs manager_eval Let_def)

theorem remote_success_is_exit_code_zero_witness:
  "r_promise (snd (remote_run (executeInRemoteSession example_remote_mgr 4 ''hostname'' 30000)
        [ChildStdout ''ok''])) = None
   \<and> (\<exists>res. r_promise (snd (remote_step
          (remote_run (executeInRemoteSession example_remote_mgr 4 ''hostname'' 30000) [ChildStdout ''ok''])
          (ChildClose (Some 1)))) = Some (Inr res)
        \<and> \<not> res_success res)
   \<and> r_promise (snd (remote_run (executeInRemoteSession example_remote_mgr 4 ''hostname'' 30000)
        [ChildStdout ''ok'', ChildClose (Some 0), TimeoutElapsed]))
     = Some (Inr \<lparr>res_stdout = ''ok'', res_stderr = [], res_success = True,
          res_sessionInfo = infos example_remote_mgr 3\<rparr>)
   \<and> (\<exists>pre code' post. [ChildStdout ''ok'', ChildClose (Some 0), TimeoutElapsed] = pre @ ChildClose code' # post
        \<and> r_promise (snd (remote_run (executeInRemoteSession example_remote_mgr 4 ''hostname'' 30000) pre)) = None
        \<and> res_success \<lparr>res_stdout = ''ok'', res_stderr = [], res_success = True,
            res_sessionInfo = infos example_remote_mgr 3\<rparr> = (code' = Some 0))"
proof -
  have 1: "r_promise (snd (remote_run (executeInRemoteSession example_remote_mgr 4 ''hostname'' 30000)
        [ChildStdout ''ok''])) = None"
    by (simp add: manager_eval)
  have 2: "r_promise (snd (remote_run (executeInRemoteSession example_remote_mgr 4 ''hostname'' 30000)
        [ChildStdout ''ok'', ChildClose (Some 0), TimeoutElapsed]))
     = Some (Inr \<lparr>res_stdout = ''ok'', res_stderr = [], res_success = True,
          res_sessionInfo = infos example_remote_mgr 3\<rparr>)"
    by (simp add: example_defs manager_eval trim_def isSpace_def Let_def)
  show ?thesis
    using 1 2
      remote_success_is_exit_code_zero [of example_remote_mgr 4 "''hostname''" 30000
        "[ChildStdout ''ok'']" "Some 1"]
      remote_success_is_exit_code_zero [of example_remote_mgr 4 "''hostname''" 30000
        "[ChildStdout ''ok'', ChildClose (Some 0), TimeoutElapsed]" _
        "\<lparr>res_stdout = ''ok'', res_stderr = [], res_success = True,
          res_sessionInfo = infos example_remote_mgr 3\<rparr>"]
    by auto
qed

text \<open>
  Claim C5 at a concrete run. The initialization of the local session \<open>work\<close> times out,
  so \<open>createSession\<close> rejects; the handlers of the creation stay attached and the timeout
  does not set \<open>initialized\<close>, so when the readiness output of the subprocess arrives
  after the rejection, \<open>sessions.set\<close> still runs: the call has failed and the name is
  registered.
\<close>

theorem createSession_registers_after_timeout:
  "createSession empty_manager ''work'' no_options 0 ''ps-session-1'' ''runspace-1''
     = (fst example_creating, Inr (Creating (snd example_creating)))
   \<and> c_promise (snd (creation_run example_creating [InitTimeoutFired, InitStdout ''PSREADY'']))
     = Some (Inl (Error ''Local PowerShell session initialization timed out''))
   \<and> signals (children (fst (creation_run example_creating [InitTimeoutFired, InitStdout ''PSREADY''])) 0)
     = [''SIGTERM'']
   \<and> sessions_has (fst (creation_run example_creating [InitTimeoutFired, InitStdout ''PSREADY''])) ''work''"
  by (simp add: example_creating_def example_creation_def example_defs manager_eval Let_def)

section \<open>Properties of the one-shot execution\<close>

lemma direct_settled_stays:
  "d_promise s \<noteq> None \<Longrightarrow> d_promise (direct_step s ev) = d_promise s"
  by (cases ev) (auto simp: d_resolve_def)

lemma direct_settled_run:
  "d_promise s \<noteq> None \<Longrightarrow> d_promise (foldl direct_step s evs) = d_promise s"
  by (induction evs arbitrary: s) (auto simp: direct_settled_stays)

lemma direct_never_rejects_step:
  "d_promise s \<noteq> Some (Inl err) \<Longrightarrow> d_promise (direct_step s ev) \<noteq> Some (Inl err)"
  by (cases ev) (auto simp: d_resolve_def)

lemma direct_never_rejects_run:
  "d_promise s \<noteq> Some (Inl err) \<Longrightarrow> d_promise (foldl direct_step s evs) \<noteq> Some (Inl err)"
  by (induction evs arbitrary: s) (auto simp: direct_never_rejects_step)

lemma direct_pending_run:
  assumes "\<not> settling (d_timeout s) pre" and "d_promise s = None"
    and "d_timeoutId s = (0 < d_timeout s)"
  shows "foldl direct_step s pre
       = s\<lparr>d_stdout := d_stdout s @ child_out pre, d_stderr := d_stderr s @ child_err pre\<rparr>"
  using assms
proof (induction pre arbitrary: s)
  case Nil
  then show ?case by simp
next
  case (Cons ev pre)
  show ?case
  proof (cases ev)
    case (ChildStdout c)
    have "foldl direct_step (s\<lparr>d_stdout := d_stdout s @ c\<rparr>) pre
        = (s\<lparr>d_stdout := d_stdout s @ c\<rparr>)\<lparr>d_stdout := d_stdout (s\<lparr>d_stdout := d_stdout s @ c\<rparr>) @ child_out pre,
             d_stderr := d_stderr (s\<lparr>d_stdout := d_stdout s @ c\<rparr>) @ child_err pre\<rparr>"
      using Cons.prems ChildStdout by (intro Cons.IH) (auto simp: settling_def)
    then show ?thesis using ChildStdout by simp
  next
    case (ChildStderr c)
    have "foldl direct_step (s\<lparr>d_stderr := d_stderr s @ c\<rparr>) pre
        = (s\<lparr>d_stderr := d_stderr s @ c\<rparr>)\<lparr>d_stdout := d_stdout (s\<lparr>d_stderr := d_stderr s @ c\<rparr>) @ child_out pre,
             d_stderr := d_stderr (s\<lparr>d_stderr := d_stderr s @ c\<rparr>) @ child_err pre\<rparr>"
      using Cons.prems ChildStderr by (intro Cons.IH) (auto simp: settling_def)
    then show ?thesis using ChildStderr by simp
  next
    case (ChildClose code)
    with Cons.prems show ?thesis by (simp add: settling_def)
  next
    case (ChildError msg)
    with Cons.prems show ?thesis by (simp add: settling_def)
  next
    case TimeoutElapsed
    with Cons.prems have "\<not> 0 < d_timeout s" "\<not> settling (d_timeout s) pre"
      by (auto simp: settling_def)
    with Cons.prems TimeoutElapsed show ?thesis by (simp add: Cons.IH)
  qed
qed

lemma direct_prefix:
  assumes "\<not> settling t pre"
  shows "foldl direct_step (direct_init t) pre
       = (direct_init t)\<lparr>d_stdout := child_out pre, d_stderr := child_err pre\<rparr>"
  using direct_pending_run [of "direct_init t" pre] assms by (simp add: direct_init_def)

lemma settling_split:
  "settling t evs \<Longrightarrow> \<exists>pre ev post. evs = pre @ ev # post \<and> \<not> settling t pre \<and> terminal t ev"
proof (induction evs)
  case Nil
  then show ?case by (simp add: settling_def)
next
  case (Cons e evs)
  show ?case
  proof (cases "terminal t e")
    case True
    then have "e # evs = [] @ e # evs \<and> \<not> settling t [] \<and> terminal t e"
      by (simp add: settling_def)
    then show ?thesis by blast
  next
    case False
    with Cons.prems have "settling t evs" by (simp add: settling_def)
    then obtain pre ev post where "evs = pre @ ev # post" "\<not> settling t pre" "terminal t ev"
      using Cons.IH by blast
    with False have "e # evs = (e # pre) @ ev # post \<and> \<not> settling t (e # pre) \<and> terminal t ev"
      by (simp add: settling_def)
    then show ?thesis by blast
  qed
qed

lemma direct_terminal_resolves:
  assumes "\<not> settling t pre" and "terminal t ev"
  shows "\<exists>res. d_promise (foldl direct_step (direct_init t) (pre @ ev # post)) = Some (Inr res)"
proof -
  let ?s = "(direct_init t)\<lparr>d_stdout := child_out pre, d_stderr := child_err pre\<rparr>"
  have "\<exists>res. d_promise (direct_step ?s ev) = Some (Inr res)"
    using assms(2) by (cases ev) (auto simp: d_resolve_def direct_init_def)
  then obtain res where r: "d_promise (direct_step ?s ev) = Some (Inr res)" by blast
  then have "d_promise (foldl direct_step (direct_step ?s ev) post) = Some (Inr res)"
    using direct_settled_run [of "direct_step ?s ev" post] by simp
  then show ?thesis by (auto simp: direct_prefix [OF assms(1)])
qed

lemma direct_error_shape:
  assumes "\<not> settling t pre"
  shows "d_promise (foldl direct_step (direct_init t) (pre @ ChildError msg # post))
     = Some (Inr \<lparr>ps_stdout = child_out pre, ps_stderr = ''Failed to start PowerShell: '' @ msg,
          ps_exitCode = - 1, ps_success = False\<rparr>)"
proof -
  let ?s = "(direct_init t)\<lparr>d_stdout := child_out pre, d_stderr := child_err pre\<rparr>"
  have r: "d_promise (direct_step ?s (ChildError msg))
     = Some (Inr \<lparr>ps_stdout = child_out pre, ps_stderr = ''Failed to start PowerShell: '' @ msg,
          ps_exitCode = - 1, ps_success = False\<rparr>)"
    by (simp add: d_resolve_def direct_init_def)
  then have "d_promise (foldl direct_step (direct_step ?s (ChildError msg)) post)
      = d_promise (direct_step ?s (ChildError msg))"
    by (intro direct_settled_run) simp
  then show ?thesis using r by (simp add: direct_prefix [OF assms])
qed

lemma direct_timeout_shape:
  assumes "\<not> settling t pre" and "0 < t"
  shows "d_promise (foldl direct_step (direct_init t) (pre @ TimeoutElapsed # post))
     = Some (Inr \<lparr>ps_stdout = child_out pre,
          ps_stderr = child_err pre @ [CHR 0x0A] @ ''Command timed out after '' @ show_int t @ ''ms'',
          ps_exitCode = - 1, ps_success = False\<rparr>)"
proof -
  let ?s = "(direct_init t)\<lparr>d_stdout := child_out pre, d_stderr := child_err pre\<rparr>"
  have r: "d_promise (direct_step ?s TimeoutElapsed)
     = Some (Inr \<lparr>ps_stdout = child_out pre,
          ps_stderr = child_err pre @ [CHR 0x0A] @ ''Command timed out after '' @ show_int t @ ''ms'',
          ps_exitCode = - 1, ps_success = False\<rparr>)"
    using assms(2) by (simp add: d_resolve_def direct_init_def)
  then have "d_promise (foldl direct_step (direct_step ?s TimeoutElapsed) post)
      = d_promise (direct_step ?s TimeoutElapsed)"
    by (intro direct_settled_run) simp
  then show ?thesis using r by (simp add: direct_prefix [OF assms(1)])
qed

lemma direct_spawned:
  "spawn_throws ''pwsh'' (pwshArgs command) wd = None \<Longrightarrow>
     executePowerShellDirect spawn_throws command timeout wd evs
       = d_promise (foldl direct_step (direct_init (the_timeout timeout)) evs)"
  by (simp add: executePowerShellDirect_def)

lemma direct_timeout_given:
  "executePowerShellDirect spawn_throws command (Some (the_timeout timeout)) wd evs
     = executePowerShellDirect spawn_throws command timeout wd evs"
  by (simp add: executePowerShellDirect_def the_timeout_def split: option.splits)

lemma run_never_rejects:
  "d_promise (foldl direct_step (direct_init t) evs) \<noteq> Some (Inl err)"
  by (rule direct_never_rejects_run) (simp add: direct_init_def)

lemma run_pending_iff:
  "(d_promise (foldl direct_step (direct_init t) evs) = None) = (\<not> settling t evs)"
proof
  assume p: "d_promise (foldl direct_step (direct_init t) evs) = None"
  show "\<not> settling t evs"
  proof
    assume "settling t evs"
    then obtain pre ev post where "evs = pre @ ev # post" "\<not> settling t pre" "terminal t ev"
      using settling_split by blast
    then show False
      using direct_terminal_resolves [of t pre ev post] p by auto
  qed
next
  assume "\<not> settling t evs"
  then have "foldl direct_step (direct_init t) evs
      = (direct_init t)\<lparr>d_stdout := child_out evs, d_stderr := child_err evs\<rparr>"
    by (rule direct_prefix)
  then show "d_promise (foldl direct_step (direct_init t) evs) = None"
    by (simp add: direct_init_def)
qed

lemma executePowerShell_first:
  "executePowerShell spawn_throws command timeout wd evs1 evs2 =
     (case executePowerShellDirect spawn_throws command timeout wd evs1 of
        None \<Rightarrow> None
      | Some (Inl err) \<Rightarrow> Some (Inl err)
      | Some (Inr firstResult) \<Rightarrow>
          (if retries firstResult
           then executePowerShellDirect spawn_throws (retryCommand command) timeout wd evs2
           else Some (Inr firstResult)))"
  by (simp add: executePowerShell_def direct_timeout_given split: option.splits sum.splits)

text \<open>
  Claim C9, as amended. Let \<open>spawn\<close> return a child for the command and for its
  \<open>cmd /c\<close> retry. Then neither \<open>executePowerShellDirect\<close> nor \<open>executePowerShell\<close>
  rejects. The promise of \<open>executePowerShellDirect\<close> is pending exactly as long as the
  child has neither closed nor failed to start and, for a timeout above 0, the timeout
  has not elapsed; from then on it holds a plain result record. The promise of
  \<open>executePowerShell\<close> is pending exactly as long as the first execution is, or the retry
  it has started is; otherwise it holds the record of the first execution, or of the
  retry when the first one failed on a batch file. When the failure to start comes first
  the record is \<open>exitCode = -1\<close>, \<open>success = false\<close> and
  \<open>stderr = Failed to start PowerShell: message\<close>; when the timeout (above 0) comes first
  it is \<open>exitCode = -1\<close>, \<open>success = false\<close> and the captured \<open>stderr\<close> followed by a line
  feed and \<open>Command timed out after t ms\<close>; and \<open>executePowerShell\<close> returns these records
  unless their error text makes it retry.
\<close>

theorem executePowerShell_settles:
  assumes ok1: "spawn_throws ''pwsh'' (pwshArgs command) wd = None"
    and ok2: "spawn_throws ''pwsh'' (pwshArgs (retryCommand command)) wd = None"
  shows "executePowerShellDirect spawn_throws command timeout wd evs \<noteq> Some (Inl err)
   \<and> executePowerShell spawn_throws command timeout wd first second \<noteq> Some (Inl err)
   \<and> (executePowerShellDirect spawn_throws command timeout wd evs = None
        \<longleftrightarrow> \<not> settling (the_timeout timeout) evs)
   \<and> (executePowerShell spawn_throws command timeout wd first second = None
        \<longleftrightarrow> \<not> settling (the_timeout timeout) first
            \<or> (\<exists>res. executePowerShellDirect spawn_throws command timeout wd first = Some (Inr res)
                  \<and> retries res)
              \<and> \<not> settling (the_timeout timeout) second)
   \<and> (executePowerShellDirect spawn_throws command timeout wd first = Some (Inr res)
        \<and> \<not> retries res \<longrightarrow>
        executePowerShell spawn_throws command timeout wd first second = Some (Inr res))
   \<and> (executePowerShellDirect spawn_throws command timeout wd first = Some (Inr res)
        \<and> retries res \<longrightarrow>
        executePowerShell spawn_throws command timeout wd first second
          = executePowerShellDirect spawn_throws (retryCommand command) timeout wd second)
   \<and> (\<not> settling (the_timeout timeout) pre \<longrightarrow>
        executePowerShellDirect spawn_throws command timeout wd (pre @ ChildError msg # post)
          = Some (Inr \<lparr>ps_stdout = child_out pre,
               ps_stderr = ''Failed to start PowerShell: '' @ msg,
               ps_exitCode = - 1, ps_success = False\<rparr>))
   \<and> (\<not> settling (the_timeout timeout) pre \<and> 0 < the_timeout timeout \<longrightarrow>
        executePowerShellDirect spawn_throws command timeout wd (pre @ TimeoutElapsed # post)
          = Some (Inr \<lparr>ps_stdout = child_out pre,
               ps_stderr = child_err pre @ [CHR 0x0A] @ ''Command timed out after ''
                           @ show_int (the_timeout timeout) @ ''ms'',
               ps_exitCode = - 1, ps_success = False\<rparr>))
   \<and> (\<not> settling (the_timeout timeout) pre
        \<and> \<not> isWin32Error (''Failed to start PowerShell: '' @ msg) \<longrightarrow>
        executePowerShell spawn_throws command timeout wd (pre @ ChildError msg # post) second
          = Some (Inr \<lparr>ps_stdout = child_out pre,
               ps_stderr = ''Failed to start PowerShell: '' @ msg,
               ps_exitCode = - 1, ps_success = False\<rparr>))
   \<and> (\<not> settling (the_timeout timeout) pre \<and> 0 < the_timeout timeout
        \<and> \<not> isWin32Error (child_err pre @ [CHR 0x0A] @ ''Command timed out after ''
                             @ show_int (the_timeout timeout) @ ''ms'') \<longrightarrow>
        executePowerShell spawn_throws command timeout wd (pre @ TimeoutElapsed # post) second
          = Some (Inr \<lparr>ps_stdout = child_out pre,
               ps_stderr = child_err pre @ [CHR 0x0A] @ ''Command timed out after ''
                           @ show_int (the_timeout timeout) @ ''ms'',
               ps_exitCode = - 1, ps_success = False\<rparr>))"
proof -
  let ?t = "the_timeout timeout"
  have d1: "executePowerShellDirect spawn_throws command timeout wd es
      = d_promise (foldl direct_step (direct_init ?t) es)" for es
    using ok1 by (rule direct_spawned)
  have d2: "executePowerShellDirect spawn_throws (retryCommand command) timeout wd es
      = d_promise (foldl direct_step (direct_init ?t) es)" for es
    using ok2 by (rule direct_spawned)
  have c1: "executePowerShellDirect spawn_throws command timeout wd evs \<noteq> Some (Inl err)"
    unfolding d1 by (rule run_never_rejects)
  have c3: "(executePowerShellDirect spawn_throws command timeout wd evs = None)
      = (\<not> settling ?t evs)"
    unfolding d1 by (rule run_pending_iff)
  have c5: "executePowerShell spawn_throws command timeout wd first second = Some (Inr res)"
    if "executePowerShellDirect spawn_throws command timeout wd first = Some (Inr res) \<and> \<not> retries res"
    using that by (simp add: executePowerShell_first)
  have c6: "executePowerShell spawn_throws command timeout wd first second
      = executePowerShellDirect spawn_throws (retryCommand command) timeout wd second"
    if "executePowerShellDirect spawn_throws command timeout wd first = Some (Inr res) \<and> retries res"
    using that by (simp add: executePowerShell_first)
  have c2: "executePowerShell spawn_throws command timeout wd first second \<noteq> Some (Inl err)"
    using run_never_rejects [of ?t first] run_never_rejects [of ?t second]
    by (auto simp: executePowerShell_first d1 d2 split: option.splits sum.splits)
  have c4: "(executePowerShell spawn_throws command timeout wd first second = None)
      = (\<not> settling ?t first
          \<or> (\<exists>res. executePowerShellDirect spawn_throws command timeout wd first = Some (Inr res)
                \<and> retries res)
            \<and> \<not> settling ?t second)"
    using run_pending_iff [of ?t first] run_pending_iff [of ?t second] run_never_rejects [of ?t first]
    by (auto simp: executePowerShell_first d1 d2 split: option.splits sum.splits)
  have c7: "executePowerShellDirect spawn_throws command timeout wd (pre @ ChildError msg # post)
          = Some (Inr \<lparr>ps_stdout = child_out pre,
               ps_stderr = ''Failed to start PowerShell: '' @ msg,
               ps_exitCode = - 1, ps_success = False\<rparr>)"
    if "\<not> settling ?t pre"
    unfolding d1 using that by (rule direct_error_shape)
  have c8: "executePowerShellDirect spawn_throws command timeout wd (pre @ TimeoutElapsed # post)
          = Some (Inr \<lparr>ps_stdout = child_out pre,
               ps_stderr = child_err pre @ [CHR 0x0A] @ ''Command timed out after ''
                           @ show_int ?t @ ''ms'',
               ps_exitCode = - 1, ps_success = False\<rparr>)"
    if "\<not> settling ?t pre \<and> 0 < ?t"
  proof -
    from that have a: "\<not> settling ?t pre" "0 < ?t" by auto
    show ?thesis unfolding d1 using a by (rule direct_timeout_shape)
  qed
  have p: "executePowerShell spawn_throws command timeout wd es second = Some (Inr r)"
    if "executePowerShellDirect spawn_throws command timeout wd es = Some (Inr r)"
      and "\<not> retries r" for es r
    using that by (simp add: executePowerShell_first)
  have c9: "executePowerShell spawn_throws command timeout wd (pre @ ChildError msg # post) second
          = Some (Inr \<lparr>ps_stdout = child_out pre,
               ps_stderr = ''Failed to start PowerShell: '' @ msg,
               ps_exitCode = - 1, ps_success = False\<rparr>)"
    if "\<not> settling ?t pre \<and> \<not> isWin32Error (''Failed to start PowerShell: '' @ msg)"
    using that c7 by (intro p) (auto simp: retries_def)
  have c10: "executePowerShell spawn_throws command timeout wd (pre @ TimeoutElapsed # post) second
          = Some (Inr \<lparr>ps_stdout = child_out pre,
               ps_stderr = child_err pre @ [CHR 0x0A] @ ''Command timed out after ''
                           @ show_int ?t @ ''ms'',
               ps_exitCode = - 1, ps_success = False\<rparr>)"
    if "\<not> settling ?t pre \<and> 0 < ?t
        \<and> \<not> isWin32Error (child_err pre @ [CHR 0x0A] @ ''Command timed out after ''
                             @ show_int ?t @ ''ms'')"
    using that c8 by (intro p) (auto simp: retries_def)
  show ?thesis
    using c1 c2 c3 c4 c5 c6 c7 c8 c9 c10 by blast
qed

lemmas direct_eval = executePowerShellDirect_def executePowerShell_def direct_init_def
  d_resolve_def the_timeout_def settling_def isWin32Error_def retries_def retryCommand_def
  nul_spawn_def pwshArgs_def utf8Prefix_def show_int_def show_nat.simps digit_char_def
  trim_def isSpace_def

text \<open>
  Claim C9 fails as stated. With \<open>timeout = 0\<close> no timer is set (the guard is
  \<open>timeout > 0\<close>): while the child has not closed the promise stays pending, also after
  the timeout has elapsed. And when \<open>spawn\<close> throws, here for a command that holds a NUL
  character, the promise rejects.
\<close>

theorem no_timer_counterexample:
  "nul_spawn ''pwsh'' (pwshArgs ''Start-Sleep -Seconds 5'') None = None
   \<and> executePowerShellDirect nul_spawn ''Start-Sleep -Seconds 5'' (Some 0) None
       [ChildStdout ''x'', TimeoutElapsed] = None
   \<and> executePowerShell nul_spawn ''Start-Sleep -Seconds 5'' (Some 0) None
       [ChildStdout ''x'', TimeoutElapsed] [] = None
   \<and> executePowerShell nul_spawn (''echo a'' @ [CHR 0x00]) (Some 500) None
       [ChildClose (Some 0)] []
     = Some (Inl (Error ''must be a string without null bytes''))"
  by (simp add: direct_eval)

theorem executePowerShell_settles_witness:
  "nul_spawn ''pwsh'' (pwshArgs ''npm start'') None = None
   \<and> nul_spawn ''pwsh'' (pwshArgs (retryCommand ''npm start'')) None = None
   \<and> \<not> settling (the_timeout (Some 500)) [ChildStdout ''x'']
   \<and> executePowerShellDirect nul_spawn ''npm start'' (Some 500) None [ChildStdout ''x''] = None
   \<and> executePowerShell nul_spawn ''npm start'' (Some 500) None [ChildStdout ''x''] [] = None
   \<and> executePowerShellDirect nul_spawn ''npm start'' (Some 500) None
        [ChildStderr ''%1 is not a valid Win32 application'', ChildClose (Some 1)]
     = Some (Inr \<lparr>ps_stdout = [], ps_stderr = ''%1 is not a valid Win32 application'',
          ps_exitCode = 1, ps_success = False\<rparr>)
   \<and> retries \<lparr>ps_stdout = [], ps_stderr = ''%1 is not a valid Win32 application'',
          ps_exitCode = 1, ps_success = False\<rparr>
   \<and> executePowerShell nul_spawn ''npm start'' (Some 500) None
        [ChildStderr ''%1 is not a valid Win32 application'', ChildClose (Some 1)]
        [ChildStdout ''ok'', ChildClose (Some 0)]
     = executePowerShellDirect nul_spawn (retryCommand ''npm start'') (Some 500) None
        [ChildStdout ''ok'', ChildClose (Some 0)]
   \<and> executePowerShell nul_spawn ''npm start'' (Some 500) None
        [ChildStderr ''%1 is not a valid Win32 application'', ChildClose (Some 1)]
        [ChildStdout ''ok'', ChildClose (Some 0)]
     = Some (Inr \<lparr>ps_stdout = ''ok'', ps_stderr = [], ps_exitCode = 0, ps_success = True\<rparr>)
   \<and> \<not> isWin32Error (''Failed to start PowerShell: '' @ ''spawn pwsh ENOENT'')
   \<and> executePowerShell nul_spawn ''npm start'' (Some 500) None
        ([ChildStdout ''x''] @ ChildError ''spawn pwsh ENOENT'' # [ChildClose (Some (- 2))]) []
     = Some (Inr \<lparr>ps_stdout = ''x'', ps_stderr = ''Failed to start PowerShell: spawn pwsh ENOENT'',
          ps_exitCode = - 1, ps_success = False\<rparr>)
   \<and> 0 < the_timeout (Some 500)
   \<and> executePowerShell nul_spawn ''npm start'' (Some 500) None
        ([ChildStdout ''x''] @ TimeoutElapsed # [ChildClose (Some (- 2))]) []
     = Some (Inr \<lparr>ps_stdout = ''x'',
          ps_stderr = [CHR 0x0A] @ ''Command timed out after 500ms'',
          ps_exitCode = - 1, ps_success = False\<rparr>)"
  using executePowerShell_settles [where spawn_throws = nul_spawn and command = "''npm start''"
      and timeout = "Some 500" and wd = None and evs = "[ChildStdout ''x'']"
      and first = "[ChildStderr ''%1 is not a valid Win32 application'', ChildClose (Some 1)]"
      and second = "[ChildStdout ''ok'', ChildClose (Some 0)]"
      and res = "\<lparr>ps_stdout = [], ps_stderr = ''%1 is not a valid Win32 application'',
          ps_exitCode = 1, ps_success = False\<rparr>"
      and pre = "[ChildStdout ''x'']" and msg = "''spawn pwsh ENOENT''"
      and post = "[ChildClose (Some (- 2))]"]
  by (simp add: direct_eval)

section \<open>Properties of the job registry\<close>

lemma tail_of_reads: "\<not> list_ex deletes_files (tail_of f n)"
  by (simp add: tail_of_def)

lemma clear_of_truncates: "\<not> list_ex deletes_files (clear_of f)"
  by (simp add: clear_of_def)

lemma get_process_reads: "\<not> list_ex deletes_files (map (\<lambda>(jn, job). GetProcess (pid job)) js)"
  by (induction js) auto

lemma tool_keeps_records:
  assumes "\<not> is_remove c" and "map_of jobs n = Some job"
  shows "map_of (fst (snd (job_tool tmpfile cwd r now jobs c))) n = Some job"
proof (cases c)
  case (StartJob nm command wd out err)
  show ?thesis
  proof (cases "nm = n")
    case True
    with assms(2) StartJob show ?thesis by (simp add: start_job_def)
  next
    case False
    with assms(2) StartJob show ?thesis
      by (auto simp: start_job_def Let_def update_conv' split: option.splits)
  qed
next
  case (GetJob nm includeOutput)
  with assms(2) show ?thesis by (auto simp: get_job_def split: option.splits)
next
  case (StopJob nm)
  with assms(2) show ?thesis by (auto simp: stop_job_def split: option.splits)
next
  case (RemoveJob nm force)
  with assms(1) show ?thesis by simp
next
  case (GetJobOutput nm keep)
  with assms(2) show ?thesis by (auto simp: get_job_output_def split: option.splits)
qed

lemma tool_deletes_no_file:
  assumes "\<not> is_remove c"
  shows "\<not> list_ex deletes_files (snd (snd (job_tool tmpfile cwd r now jobs c)))"
proof (cases c)
  case (StartJob nm command wd out err)
  then show ?thesis by (auto simp: start_job_def Let_def split: option.splits)
next
  case (GetJob nm includeOutput)
  then show ?thesis
    using get_process_reads [of jobs]
    by (auto simp: get_job_def tail_of_def split: option.splits)
next
  case (StopJob nm)
  then show ?thesis by (auto simp: stop_job_def split: option.splits)
next
  case (RemoveJob nm force)
  with assms show ?thesis by simp
next
  case (GetJobOutput nm keep)
  then show ?thesis
    by (auto simp: get_job_output_def tail_of_def clear_of_def split: option.splits)
qed

text \<open>
  Claim C8. \<open>pwsh-stop-job\<close> returns the registry as it was and gives \<open>run\<close> nothing but
  the \<open>Stop-Process\<close> line for the pid of the job (nothing for an unknown name). No tool
  call other than \<open>pwsh-remove-job\<close> changes or removes a record that is in the registry,
  and none of them gives \<open>run\<close> a \<open>Remove-Item\<close> line. \<open>pwsh-remove-job\<close> on a tracked
  name removes that record, keeps every other one, and gives \<open>run\<close> the \<open>Remove-Item\<close>
  line for the output files of the job (after the \<open>Stop-Process\<close> line when forced).
\<close>

theorem stop_keeps_record_remove_deletes:
  "fst (snd (stop_job jobs nm)) = jobs
   \<and> snd (snd (stop_job jobs nm))
       = (case map_of jobs nm of None \<Rightarrow> [] | Some job \<Rightarrow> [StopProcess (pid job)])
   \<and> (\<not> is_remove c \<and> map_of jobs n = Some job \<longrightarrow>
        map_of (fst (snd (job_tool tmpfile cwd r now jobs c))) n = Some job)
   \<and> (\<not> is_remove c \<longrightarrow>
        \<not> list_ex deletes_files (snd (snd (job_tool tmpfile cwd r now jobs c))))
   \<and> (map_of jobs nm = Some job' \<longrightarrow>
        map_of (fst (snd (remove_job jobs nm force))) nm = None
        \<and> snd (snd (remove_job jobs nm force))
            = (if force then [StopProcess (pid job')] else [])
              @ (if output_files job' \<noteq> [] then [RemoveItem (output_files job')] else []))
   \<and> (n \<noteq> nm \<longrightarrow> map_of (fst (snd (remove_job jobs nm force))) n = map_of jobs n)"
proof (intro conjI impI)
  show "fst (snd (stop_job jobs nm)) = jobs"
    by (simp add: stop_job_def split: option.splits)
  show "snd (snd (stop_job jobs nm))
       = (case map_of jobs nm of None \<Rightarrow> [] | Some job \<Rightarrow> [StopProcess (pid job)])"
    by (simp add: stop_job_def split: option.splits)
  show "\<not> list_ex deletes_files (snd (snd (job_tool tmpfile cwd r now jobs c)))" if "\<not> is_remove c"
    using that by (rule tool_deletes_no_file)
  show "map_of (fst (snd (job_tool tmpfile cwd r now jobs c))) n = Some job"
    if "\<not> is_remove c \<and> map_of jobs n = Some job"
    using that tool_keeps_records by blast
  show "map_of (fst (snd (remove_job jobs nm force))) nm = None" if "map_of jobs nm = Some job'"
    using that by (simp add: remove_job_def delete_conv')
  show "snd (snd (remove_job jobs nm force))
            = (if force then [StopProcess (pid job')] else [])
              @ (if output_files job' \<noteq> [] then [RemoveItem (output_files job')] else [])"
    if "map_of jobs nm = Some job'"
    using that by (simp add: remove_job_def)
  show "map_of (fst (snd (remove_job jobs nm force))) n = map_of jobs n" if "n \<noteq> nm"
    using that by (simp add: remove_job_def delete_conv' split: option.splits)
qed

lemmas job_eval = start_job_def get_job_def stop_job_def remove_job_def get_job_output_def
  output_files_def tail_of_def clear_of_def truthy_def job_ok_def job_failed_def
  example_job_def example_jobs_def example_run_def

theorem stop_keeps_record_remove_deletes_witness:
  "stop_job example_jobs ''j1'' = (job_ok (Some 4242), example_jobs, [StopProcess 4242])
   \<and> \<not> is_remove (GetJobOutput ''j1'' False) \<and> map_of example_jobs ''j1'' = Some example_job
   \<and> map_of (fst (snd (job_tool (\<lambda>n. n) ''C:/work'' example_run 6 example_jobs
        (GetJobOutput ''j1'' False)))) ''j1'' = Some example_job
   \<and> \<not> list_ex deletes_files (snd (snd (job_tool (\<lambda>n. n) ''C:/work'' example_run 6 example_jobs
        (GetJobOutput ''j1'' False))))
   \<and> map_of (fst (snd (remove_job example_jobs ''j1'' True))) ''j1'' = None
   \<and> snd (snd (remove_job example_jobs ''j1'' True))
       = [StopProcess 4242, RemoveItem [''C:/tmp/pi-job-j1-ab12cd-stdout.log'']]
   \<and> ''j2'' \<noteq> ''j1''
   \<and> map_of (fst (snd (remove_job example_jobs ''j1'' True))) ''j2'' = map_of example_jobs ''j2''"
  using stop_keeps_record_remove_deletes [where jobs = example_jobs and nm = "''j1''"
      and c = "GetJobOutput ''j1'' False" and n = "''j1''" and job = example_job
      and tmpfile = "\<lambda>n. n" and cwd = "''C:/work''" and r = example_run and now = 6
      and job' = example_job and force = True]
    stop_keeps_record_remove_deletes [where jobs = example_jobs and nm = "''j1''"
      and n = "''j2''" and force = True]
  by (simp add: job_eval)

end
